theory Spec2Isabelle
  imports Main "HOL-Library.Char_ord" "HOL-Library.List_Lexorder" "HOL-Library.AList"
begin

section \<open>Python values and exceptions\<close>

text \<open>
  The program is the notebook \<^verbatim>\<open>HDB.ipynb\<close>. Its cells mutate two pandas frames,
  \<^verbatim>\<open>df\<close> (the training corpus) and \<^verbatim>\<open>myflat\<close> (the flat to be priced).
  Every exception a cell can raise is a value of \<open>error\<close>; a cell that raises stops the
  notebook, so the cells are chained in the sum type \<open>error + 'a\<close>.
  \<open>OutOfBoundsDatetime\<close> is pandas' subclass of \<open>ValueError\<close>. \<open>NotModelled\<close> is no
  Python exception: it marks the one input the model does not follow, a categorical column
  that holds numbers only, whose indicator names would need Python's number formatting.
\<close>

datatype error =
    IndexError | ValueError | KeyError | AssertionError | AttributeError | TypeError
  | OutOfBoundsDatetime | NotModelled

definition bind :: "error + 'a \<Rightarrow> ('a \<Rightarrow> error + 'b) \<Rightarrow> error + 'b" where
  "bind m f = (case m of Inl e \<Rightarrow> Inl e | Inr x \<Rightarrow> f x)"

text \<open>\<^verbatim>\<open>[f(x) for x in xs]\<close>, as \<^verbatim>\<open>Series.apply\<close> runs it: left to right, the first
  exception ends the loop.\<close>

fun mapM :: "('a \<Rightarrow> error + 'b) \<Rightarrow> 'a list \<Rightarrow> error + 'b list" where
  "mapM f [] = Inr []"
| "mapM f (x # xs) =
     (case f x of Inl e \<Rightarrow> Inl e
      | Inr y \<Rightarrow> (case mapM f xs of Inl e \<Rightarrow> Inl e | Inr ys \<Rightarrow> Inr (y # ys)))"

text \<open>\<^verbatim>\<open>xs[i]\<close> on a list: position \<open>i\<close> from the front when \<open>i\<close> is not negative,
  position \<open>- i\<close> from the back otherwise; \<^verbatim>\<open>IndexError\<close> when the list is too short.\<close>

definition py_index :: "'a list \<Rightarrow> int \<Rightarrow> error + 'a" where
  "py_index xs i =
     (if 0 \<le> i
      then (if nat i < length xs then Inr (xs ! nat i) else Inl IndexError)
      else (if nat (- i) \<le> length xs then Inr (xs ! (length xs - nat (- i)))
            else Inl IndexError))"

section \<open>Strings\<close>

text \<open>
  A Python \<^verbatim>\<open>str\<close> is modelled as a \<open>string\<close> whose characters are the code points
  below 256. \<open>is_space\<close> is \<^verbatim>\<open>str.isspace\<close> on one such character, \<open>is_digit\<close> the
  decimal digits among them.
\<close>

definition is_space :: "char \<Rightarrow> bool" where
  "is_space c \<longleftrightarrow>
     (let n = (of_char c :: nat)
      in (9 \<le> n \<and> n \<le> 13) \<or> (28 \<le> n \<and> n \<le> 32) \<or> n = 133 \<or> n = 160)"

definition is_digit :: "char \<Rightarrow> bool" where
  "is_digit c \<longleftrightarrow> (let n = (of_char c :: nat) in 48 \<le> n \<and> n \<le> 57)"

definition digit_val :: "char \<Rightarrow> int" where
  "digit_val c = int (of_char c) - 48"

text \<open>\<^verbatim>\<open>x.split()\<close>: the maximal runs of non-space characters; \<open>cur\<close> is the run being read.\<close>

fun split_ws :: "string \<Rightarrow> string \<Rightarrow> string list" where
  "split_ws cur [] = (if cur = [] then [] else [cur])"
| "split_ws cur (c # cs) =
     (if is_space c then (if cur = [] then split_ws [] cs else cur # split_ws [] cs)
      else split_ws (cur @ [c]) cs)"

definition py_split :: "string \<Rightarrow> string list" where
  "py_split x = split_ws [] x"

text \<open>\<^verbatim>\<open>x.split(sep)\<close> for a one-character separator: every occurrence cuts, empty pieces
  are kept, the result is never empty.\<close>

fun split_on :: "char \<Rightarrow> string \<Rightarrow> string \<Rightarrow> string list" where
  "split_on sep cur [] = [cur]"
| "split_on sep cur (c # cs) =
     (if c = sep then cur # split_on sep [] cs else split_on sep (cur @ [c]) cs)"

definition py_split_sep :: "char \<Rightarrow> string \<Rightarrow> string list" where
  "py_split_sep sep x = split_on sep [] x"

text \<open>
  \<^verbatim>\<open>int(s)\<close> in base 10: white space around the literal is skipped, one sign is allowed,
  and the digits may be grouped by single underscores. The white space that \<^verbatim>\<open>int\<close> skips
  is the ASCII white space (tab to carriage return, and the space) and, above 127, what
  \<^verbatim>\<open>str.isspace\<close> accepts; the separators \<open>0x1C\<close> to \<open>0x1F\<close>, at which \<^verbatim>\<open>x.split()\<close>
  cuts, are not skipped.
\<close>

definition is_int_space :: "char \<Rightarrow> bool" where
  "is_int_space c \<longleftrightarrow>
     (let n = (of_char c :: nat) in (9 \<le> n \<and> n \<le> 13) \<or> n = 32 \<or> n = 133 \<or> n = 160)"

definition strip :: "string \<Rightarrow> string" where
  "strip s = rev (dropWhile is_int_space (rev (dropWhile is_int_space s)))"

fun digits_ok :: "string \<Rightarrow> bool" where
  "digits_ok [] = False"
| "digits_ok [c] = is_digit c"
| "digits_ok (c # d # cs) =
     (is_digit c \<and> (if d = CHR ''_'' then digits_ok cs else digits_ok (d # cs)))"

definition digits_val :: "string \<Rightarrow> int" where
  "digits_val s = foldl (\<lambda>a c. 10 * a + digit_val c) 0 s"

definition py_int :: "string \<Rightarrow> error + int" where
  "py_int s =
     (case strip s of
        [] \<Rightarrow> Inl ValueError
      | c # cs \<Rightarrow>
          (let body = (if c = CHR ''+'' \<or> c = CHR ''-'' then cs else c # cs);
               sgn = (if c = CHR ''-'' then - 1 else 1)
           in if digits_ok body
              then Inr (sgn * digits_val (filter (\<lambda>d. d \<noteq> CHR ''_'') body))
              else Inl ValueError))"

section \<open>The lease and month lambdas\<close>

text \<open>
  Cells 17 and 44: \<^verbatim>\<open>lambda x: int(x.split()[0])\<close> and
  \<^verbatim>\<open>lambda x: int(x.split(" ")[-2])\<close>; cell 43: \<^verbatim>\<open>lambda x: int(x.split("-")[0])\<close>
  and \<^verbatim>\<open>lambda x: int(x.split("-")[-1])\<close>.
\<close>

definition years_remaining :: "string \<Rightarrow> error + int" where
  "years_remaining x = bind (py_index (py_split x) 0) py_int"

definition months_remaining :: "string \<Rightarrow> error + int" where
  "months_remaining x = bind (py_index (py_split_sep CHR '' '' x) (- 2)) py_int"

definition sale_year_of :: "string \<Rightarrow> error + int" where
  "sale_year_of x = bind (py_index (py_split_sep CHR ''-'' x) 0) py_int"

definition sale_month_of :: "string \<Rightarrow> error + int" where
  "sale_month_of x = bind (py_index (py_split_sep CHR ''-'' x) (- 1)) py_int"

text \<open>Both lease lambdas on one text, the years first, as cells 17 and 44 run them.\<close>

definition lease_fields :: "string \<Rightarrow> error + int \<times> int" where
  "lease_fields x =
     bind (years_remaining x) (\<lambda>y. bind (months_remaining x) (\<lambda>m. Inr (y, m)))"

section \<open>Frames\<close>

text \<open>
  A cell of a frame is a string, an integer, a float (of an uninterpreted type \<open>'f\<close>: the
  notebook only moves floats around), the null \<^verbatim>\<open>NaN\<close>, or, in the column
  \<^verbatim>\<open>sale_date\<close> of cell 15, a timestamp (year and month; the day is always 1) or
  \<^verbatim>\<open>NaT\<close>. A frame is its columns in order, each with its label; all columns of a frame
  have the same number of rows. \<^verbatim>\<open>read_csv\<close> gives distinct labels and the default row
  index, so rows are aligned by position.
\<close>

datatype 'f cell = Str string | IntC int | FltC 'f | NaN | Ts int int | NaT

type_synonym 'f frame = "(string \<times> 'f cell list) list"

text \<open>
  \<^verbatim>\<open>read_csv\<close> gives a column the dtype \<^verbatim>\<open>object\<close> when one of its cells is a string, and
  a numeric dtype when it holds numbers and nulls only. \<open>holds_str\<close> is that distinction;
  the encoders take different paths on the two kinds of column.
\<close>

fun str_of :: "'f cell \<Rightarrow> string option" where
  "str_of (Str s) = Some s"
| "str_of _ = None"

definition holds_str :: "'f cell list \<Rightarrow> bool" where
  "holds_str col \<longleftrightarrow> list_ex (\<lambda>c. str_of c \<noteq> None) col"

definition columns :: "'f frame \<Rightarrow> string list" where
  "columns df = map fst df"

text \<open>\<^verbatim>\<open>df[c]\<close>\<close>

definition get_col :: "'f frame \<Rightarrow> string \<Rightarrow> error + 'f cell list" where
  "get_col df c = (case map_of df c of None \<Rightarrow> Inl KeyError | Some vs \<Rightarrow> Inr vs)"

text \<open>\<^verbatim>\<open>df[c] = vs\<close>: an existing column is replaced where it stands, a new one is
  appended.\<close>

definition set_col :: "string \<Rightarrow> 'f cell list \<Rightarrow> 'f frame \<Rightarrow> 'f frame" where
  "set_col c vs df = AList.update c vs df"

text \<open>\<^verbatim>\<open>df.drop(cs, axis=1)\<close>: every label must exist.\<close>

definition drop_cols :: "string list \<Rightarrow> 'f frame \<Rightarrow> error + 'f frame" where
  "drop_cols cs df =
     (if set cs \<subseteq> set (columns df) then Inr (filter (\<lambda>kv. fst kv \<notin> set cs) df)
      else Inl KeyError)"

text \<open>\<^verbatim>\<open>df.join(other)\<close> on the shared default index: a label on both sides raises.\<close>

definition join :: "'f frame \<Rightarrow> 'f frame \<Rightarrow> error + 'f frame" where
  "join df other =
     (if set (columns df) \<inter> set (columns other) = {} then Inr (df @ other)
      else Inl ValueError)"

text \<open>\<^verbatim>\<open>df[cs]\<close> for a list of labels: the columns named, in the order named.\<close>

definition select :: "string list \<Rightarrow> 'f frame \<Rightarrow> error + 'f frame" where
  "select cs df =
     mapM (\<lambda>c. case map_of df c of None \<Rightarrow> Inl KeyError | Some vs \<Rightarrow> Inr (c, vs)) cs"

text \<open>\<^verbatim>\<open>Series.apply\<close> of a lambda that calls \<^verbatim>\<open>x.split\<close>: only a \<^verbatim>\<open>str\<close> has that
  method.\<close>

definition apply_str :: "(string \<Rightarrow> error + int) \<Rightarrow> 'f cell \<Rightarrow> error + 'f cell" where
  "apply_str f c =
     (case c of Str s \<Rightarrow> (case f s of Inl e \<Rightarrow> Inl e | Inr i \<Rightarrow> Inr (IntC i))
      | _ \<Rightarrow> Inl AttributeError)"

text \<open>\<^verbatim>\<open>df.isna().sum()\<close> (cell 25): the number of nulls of each column. The notebook
  displays it and goes on.\<close>

definition isna :: "'f cell \<Rightarrow> bool" where
  "isna c = (case c of NaN \<Rightarrow> True | NaT \<Rightarrow> True | _ \<Rightarrow> False)"

definition isna_sum :: "'f frame \<Rightarrow> (string \<times> nat) list" where
  "isna_sum df = map (\<lambda>kv. (fst kv, length (filter isna (snd kv)))) df"

section \<open>Dates (cell 15)\<close>

text \<open>
  \<^verbatim>\<open>pd.to_datetime(df['month'], format="%Y-%m")\<close>, by the meaning of the format: a year of
  four digits, a dash, a month from 1 to 12 in two digits or one; the first day of that
  month must lie in the range of a \<^verbatim>\<open>Timestamp\<close> (1677-09-21 to 2262-04-11). A null
  gives \<^verbatim>\<open>NaT\<close>, whose year and month read as \<^verbatim>\<open>NaN\<close>. Texts of another shape are
  rejected here; pandas releases differ on some of them, and no result below rests on such a
  rejection.
\<close>

fun strptime_Ym :: "string \<Rightarrow> error + int \<times> int" where
  "strptime_Ym [a, b, c, d, s, m] =
     (if is_digit a \<and> is_digit b \<and> is_digit c \<and> is_digit d \<and> s = CHR ''-''
         \<and> is_digit m \<and> m \<noteq> CHR ''0''
      then Inr (digits_val [a, b, c, d], digit_val m) else Inl ValueError)"
| "strptime_Ym [a, b, c, d, s, m, n] =
     (if is_digit a \<and> is_digit b \<and> is_digit c \<and> is_digit d \<and> s = CHR ''-''
         \<and> is_digit m \<and> is_digit n \<and> 1 \<le> digits_val [m, n] \<and> digits_val [m, n] \<le> 12
      then Inr (digits_val [a, b, c, d], digits_val [m, n]) else Inl ValueError)"
| "strptime_Ym _ = Inl ValueError"

definition in_bounds :: "int \<Rightarrow> int \<Rightarrow> bool" where
  "in_bounds y m \<longleftrightarrow>
     (1677 < y \<or> (y = 1677 \<and> 10 \<le> m)) \<and> (y < 2262 \<or> (y = 2262 \<and> m \<le> 4))"

definition to_datetime :: "'f cell \<Rightarrow> error + 'f cell" where
  "to_datetime c =
     (case c of
        Str s \<Rightarrow>
          (case strptime_Ym s of Inl e \<Rightarrow> Inl e
           | Inr ym \<Rightarrow> if in_bounds (fst ym) (snd ym) then Inr (Ts (fst ym) (snd ym))
                       else Inl OutOfBoundsDatetime)
      | NaN \<Rightarrow> Inr NaT
      | NaT \<Rightarrow> Inr NaT
      | Ts y m \<Rightarrow> Inr (Ts y m)
      | _ \<Rightarrow> Inl ValueError)"

definition dt_year :: "'f cell \<Rightarrow> error + 'f cell" where
  "dt_year c = (case c of Ts y m \<Rightarrow> Inr (IntC y) | NaT \<Rightarrow> Inr NaN | _ \<Rightarrow> Inl AttributeError)"

definition dt_month :: "'f cell \<Rightarrow> error + 'f cell" where
  "dt_month c = (case c of Ts y m \<Rightarrow> Inr (IntC m) | NaT \<Rightarrow> Inr NaN | _ \<Rightarrow> Inl AttributeError)"

section \<open>The encoders (cells 19, 21, 43, 44)\<close>

text \<open>
  \<^verbatim>\<open>OrdinalEncoder(categories=[storey_cat], dtype=int)\<close>: the categories are the list given,
  so \<^verbatim>\<open>fit\<close> learns nothing. Both \<^verbatim>\<open>fit\<close> and \<^verbatim>\<open>transform\<close> raise \<^verbatim>\<open>ValueError\<close> on a
  column without rows and, with the default \<^verbatim>\<open>handle_unknown='error'\<close>, on an object
  column with a value that is not in the list. On a numeric column \<^verbatim>\<open>fit\<close> raises
  \<^verbatim>\<open>ValueError\<close> when it converts the labels to the dtype of the column, and
  \<^verbatim>\<open>transform\<close> raises \<^verbatim>\<open>TypeError\<close> when it compares the numbers with the labels.
  \<open>oe_cell\<close> is the rank of one cell of an object column.
\<close>

definition storey_cat :: "string list" where
  "storey_cat =
     [''01 TO 03'', ''04 TO 06'', ''07 TO 09'', ''10 TO 12'', ''13 TO 15'', ''16 TO 18'',
      ''19 TO 21'', ''22 TO 24'', ''25 TO 27'', ''28 TO 30'', ''31 TO 33'', ''34 TO 36'',
      ''37 TO 39'', ''40 TO 42'', ''43 TO 45'', ''46 TO 48'', ''49 TO 51'']"

fun index_of :: "'a \<Rightarrow> 'a list \<Rightarrow> nat option" where
  "index_of x [] = None"
| "index_of x (y # ys) = (if x = y then Some 0 else map_option Suc (index_of x ys))"

definition oe_cell :: "'f cell \<Rightarrow> error + 'f cell" where
  "oe_cell c =
     (case c of
        Str s \<Rightarrow> (case index_of s storey_cat of None \<Rightarrow> Inl ValueError
                  | Some i \<Rightarrow> Inr (IntC (int i)))
      | _ \<Rightarrow> Inl ValueError)"

definition oe_transform :: "'f cell list \<Rightarrow> error + 'f cell list" where
  "oe_transform col =
     (if col = [] then Inl ValueError
      else if \<not> holds_str col then Inl TypeError
      else mapM oe_cell col)"

definition oe_fit :: "'f cell list \<Rightarrow> error + unit" where
  "oe_fit col =
     (if col = [] then Inl ValueError
      else if \<not> holds_str col then Inl ValueError
      else if \<forall>c \<in> set col. c \<in> Str ` set storey_cat then Inr () else Inl ValueError)"

definition oe_fit_transform :: "'f cell list \<Rightarrow> error + 'f cell list" where
  "oe_fit_transform col = bind (oe_fit col) (\<lambda>_. oe_transform col)"

text \<open>
  \<^verbatim>\<open>OneHotEncoder(dtype=int)\<close>. \<^verbatim>\<open>fit\<close> takes, for each of the three columns, its
  distinct values in sorted order, a null last (scikit-learn from 0.24 on, the releases for
  the notebook's Python 3.9 that still have \<^verbatim>\<open>get_feature_names\<close>); strings mixed with
  numbers raise \<^verbatim>\<open>TypeError\<close>. \<^verbatim>\<open>transform\<close> goes through the three columns in turn
  (\<open>ohe_column\<close>): a numeric column against a vocabulary with strings raises
  \<^verbatim>\<open>TypeError\<close>, a value that was not seen by \<^verbatim>\<open>fit\<close> raises \<^verbatim>\<open>ValueError\<close>
  (\<^verbatim>\<open>handle_unknown='error'\<close>), and otherwise the column gives one 0/1 column for each
  category. \<^verbatim>\<open>get_feature_names()\<close> without arguments names them \<^verbatim>\<open>x0_<value>\<close>,
  \<^verbatim>\<open>x1_<value>\<close>, \<^verbatim>\<open>x2_<value>\<close>.
\<close>

definition ohe_features :: "string list" where
  "ohe_features = [''town'', ''flat_type'', ''flat_model'']"

definition input_features :: "string list" where
  "input_features = [''x0'', ''x1'', ''x2'']"

definition ohe_categories :: "'f cell list \<Rightarrow> error + 'f cell list" where
  "ohe_categories col =
     (let strs = List.map_filter str_of col;
          others = filter (\<lambda>c. str_of c = None \<and> c \<noteq> NaN) col
      in if others \<noteq> [] then (if strs = [] then Inl NotModelled else Inl TypeError)
         else Inr (map Str (sort (remdups strs)) @ (if NaN \<in> set col then [NaN] else [])))"

definition ohe_fit :: "'f frame \<Rightarrow> error + 'f cell list list" where
  "ohe_fit df =
     bind (mapM (get_col df) ohe_features) (\<lambda>cols.
       if [] \<in> set cols then Inl ValueError else mapM ohe_categories cols)"

definition indicators :: "'f cell list \<Rightarrow> 'f cell list \<Rightarrow> 'f cell list list" where
  "indicators cats col = map (\<lambda>c. map (\<lambda>v. IntC (if v = c then 1 else 0)) col) cats"

definition ohe_column :: "'f cell list \<Rightarrow> 'f cell list \<Rightarrow> error + 'f cell list list" where
  "ohe_column cats col =
     (if \<not> holds_str col \<and> holds_str cats then Inl TypeError
      else if set col \<subseteq> set cats then Inr (indicators cats col)
      else Inl ValueError)"

definition ohe_transform :: "'f cell list list \<Rightarrow> 'f frame \<Rightarrow> error + 'f cell list list" where
  "ohe_transform cats df =
     bind (mapM (get_col df) ohe_features) (\<lambda>cols.
       if [] \<in> set cols \<or> length cats \<noteq> length cols then Inl ValueError
       else bind (mapM (\<lambda>p. ohe_column (fst p) (snd p)) (zip cats cols)) (\<lambda>blocks.
              Inr (concat blocks)))"

fun cell_text :: "'f cell \<Rightarrow> string" where
  "cell_text (Str s) = s"
| "cell_text _ = ''nan''"

definition get_feature_names :: "'f cell list list \<Rightarrow> string list" where
  "get_feature_names cats =
     concat (map (\<lambda>p. map (\<lambda>c. fst p @ ''_'' @ cell_text c) (snd p)) (zip input_features cats))"

section \<open>Training (cells 15 to 38)\<close>

text \<open>One function for each cell that changes \<^verbatim>\<open>df\<close>, named after the cell. The cells in
  between display, plot or build other frames and leave \<^verbatim>\<open>df\<close> as it is.\<close>

definition cell15 :: "'f frame \<Rightarrow> error + 'f frame" where
  "cell15 df =
     bind (get_col df ''month'') (\<lambda>ms.
     bind (mapM to_datetime ms) (\<lambda>ds.
     bind (mapM dt_year ds) (\<lambda>ys.
     bind (mapM dt_month ds) (\<lambda>mos.
       drop_cols [''sale_date'', ''month'']
         (set_col ''sale_month'' mos (set_col ''sale_year'' ys (set_col ''sale_date'' ds df)))))))"

definition cell17 :: "'f frame \<Rightarrow> error + 'f frame" where
  "cell17 df =
     bind (get_col df ''remaining_lease'') (\<lambda>ls.
     bind (mapM (apply_str years_remaining) ls) (\<lambda>ys.
     bind (get_col (set_col ''years_remaining'' ys df) ''remaining_lease'') (\<lambda>ls'.
     bind (mapM (apply_str months_remaining) ls') (\<lambda>ms.
       drop_cols [''remaining_lease'', ''lease_commence_date'']
         (set_col ''months_remaining'' ms (set_col ''years_remaining'' ys df))))))"

definition cell19 :: "'f frame \<Rightarrow> error + 'f frame" where
  "cell19 df =
     bind (get_col df ''storey_range'') (\<lambda>sr.
     bind (oe_fit_transform sr) (\<lambda>st. Inr (set_col ''storey'' st df)))"

definition cell21 :: "'f frame \<Rightarrow> error + 'f cell list list \<times> 'f frame" where
  "cell21 df =
     bind (ohe_fit df) (\<lambda>cats.
     bind (ohe_transform cats df) (\<lambda>enc.
     bind (join df (zip (get_feature_names cats) enc)) (\<lambda>df'. Inr (cats, df'))))"

definition cell37 :: "'f frame \<Rightarrow> error + 'f frame" where
  "cell37 df =
     drop_cols [''town'', ''flat_type'', ''flat_model'', ''storey_range'', ''block'',
                ''street_name''] df"

text \<open>Cell 38 hands \<^verbatim>\<open>df.drop('resale_price', axis=1)\<close> and \<^verbatim>\<open>df['resale_price']\<close> to
  \<^verbatim>\<open>train_test_split\<close>; \<open>cell38\<close> is that pair. The split draws from numpy's global
  generator and the regression works in floating point: neither is modelled.\<close>

definition cell38 :: "'f frame \<Rightarrow> error + 'f frame \<times> 'f cell list" where
  "cell38 df =
     bind (drop_cols [''resale_price''] df) (\<lambda>fs.
     bind (get_col df ''resale_price'') (\<lambda>ls. Inr (fs, ls)))"

text \<open>What the prediction cells read from the training run: the fitted one-hot encoder, the
  frame \<^verbatim>\<open>df\<close> as cell 37 leaves it, and the feature matrix and the labels that cell 38
  hands to the split (\<^verbatim>\<open>X_train\<close> has the columns of that feature matrix).\<close>

record 'f fitted =
  ohe_cats :: "'f cell list list"
  df_final :: "'f frame"
  features :: "'f frame"
  labels :: "'f cell list"

definition train :: "'f frame \<Rightarrow> error + 'f fitted" where
  "train df =
     bind (cell15 df) (\<lambda>df1.
     bind (cell17 df1) (\<lambda>df2.
     bind (cell19 df2) (\<lambda>df3.
     bind (cell21 df3) (\<lambda>p.
     bind (cell37 (snd p)) (\<lambda>df5.
     bind (cell38 df5) (\<lambda>q.
       Inr \<lparr>ohe_cats = fst p, df_final = df5, features = fst q, labels = snd q\<rparr>))))))"

section \<open>Prediction (cells 43 to 47)\<close>

definition cell43 :: "'f frame \<Rightarrow> error + 'f frame" where
  "cell43 myflat =
     bind (get_col myflat ''month'') (\<lambda>ms.
     bind (mapM (apply_str sale_year_of) ms) (\<lambda>ys.
     bind (get_col (set_col ''sale_year'' ys myflat) ''month'') (\<lambda>ms'.
     bind (mapM (apply_str sale_month_of) ms') (\<lambda>mos.
     bind (drop_cols [''month'']
             (set_col ''sale_month'' mos (set_col ''sale_year'' ys myflat))) (\<lambda>m3.
     bind (get_col m3 ''storey_range'') (\<lambda>sr.
     bind (oe_transform sr) (\<lambda>st. Inr (set_col ''storey'' st m3))))))))"

definition cell44 :: "'f cell list list \<Rightarrow> 'f frame \<Rightarrow> error + 'f frame" where
  "cell44 cats myflat =
     bind (ohe_transform cats myflat) (\<lambda>enc.
     bind (join myflat (zip (get_feature_names cats) enc)) (\<lambda>m1.
     bind (get_col m1 ''remaining_lease'') (\<lambda>ls.
     bind (mapM (apply_str years_remaining) ls) (\<lambda>ys.
     bind (get_col (set_col ''years_remaining'' ys m1) ''remaining_lease'') (\<lambda>ls'.
     bind (mapM (apply_str months_remaining) ls') (\<lambda>ms.
       Inr (set_col ''months_remaining'' ms (set_col ''years_remaining'' ys m1))))))))"

definition cell45 :: "'f frame \<Rightarrow> error + 'f frame" where
  "cell45 myflat =
     drop_cols [''remaining_lease'', ''lease_commence_date'', ''town'', ''flat_type'',
                ''flat_model'', ''storey_range'', ''block'', ''street_name''] myflat"

text \<open>Cells 43 to 45 together: the assembled prediction row.\<close>

definition assemble :: "'f fitted \<Rightarrow> 'f frame \<Rightarrow> error + 'f frame" where
  "assemble st myflat = bind (cell43 myflat) (\<lambda>m. bind (cell44 (ohe_cats st) m) cell45)"

text \<open>\<^verbatim>\<open>assert len(df.columns) == len(myflat.columns) + 1\<close>\<close>

definition cell46 :: "'f fitted \<Rightarrow> 'f frame \<Rightarrow> error + 'f frame" where
  "cell46 st myflat =
     (if length (columns (df_final st)) = length (columns myflat) + 1 then Inr myflat
      else Inl AssertionError)"

text \<open>\<^verbatim>\<open>myflat = myflat[X_train.columns]\<close>\<close>

definition reindex :: "'f fitted \<Rightarrow> 'f frame \<Rightarrow> error + 'f frame" where
  "reindex st myflat = select (columns (features st)) myflat"

text \<open>Cells 46 and 47 up to the call of \<^verbatim>\<open>lr.predict\<close>: the frame the model receives.\<close>

definition aligned :: "'f fitted \<Rightarrow> 'f frame \<Rightarrow> error + 'f frame" where
  "aligned st myflat = bind (cell46 st myflat) (reindex st)"

text \<open>The regression model is a parameter: \<open>predict\<close> is \<^verbatim>\<open>lr.predict\<close>, which may raise.
  Cell 47 prints \<^verbatim>\<open>lr.predict(myflat)[0]\<close>.\<close>

definition predict_price ::
  "('f frame \<Rightarrow> error + 'p list) \<Rightarrow> 'f fitted \<Rightarrow> 'f frame \<Rightarrow> error + 'p" where
  "predict_price predict st myflat =
     bind (assemble st myflat) (\<lambda>m.
     bind (aligned st m) (\<lambda>m'.
     bind (predict m') (\<lambda>ps. py_index ps 0)))"

section \<open>Notions used by the properties\<close>

text \<open>A non-empty run of decimal digits, as \<^verbatim>\<open><N>\<close> and \<^verbatim>\<open><M>\<close> in a lease text.\<close>

definition all_digits :: "string \<Rightarrow> bool" where
  "all_digits s \<longleftrightarrow> s \<noteq> [] \<and> list_all is_digit s"

text \<open>The indicator values of one row for one encoded column: exactly one of them is 1,
  all the others are 0.\<close>

definition one_hot_row :: "'f cell list \<Rightarrow> bool" where
  "one_hot_row row \<longleftrightarrow>
     length (filter (\<lambda>v. v = IntC 1) row) = 1 \<and>
     length (filter (\<lambda>v. v = IntC 0) row) = length row - 1"

text \<open>Row \<open>r\<close> across the indicator columns of one encoded column.\<close>

definition indicator_row :: "'f cell list list \<Rightarrow> nat \<Rightarrow> 'f cell list" where
  "indicator_row block r = map (\<lambda>col. col ! r) block"






text \<open>No encoded column of the corpus holds both a null and the string \<open>nan\<close>: the two
  would get the same indicator name. \<^verbatim>\<open>read_csv\<close> reads the text \<open>nan\<close> as a null, so a
  frame read from a file is of this kind.\<close>

definition no_nan_clash :: "'f frame \<Rightarrow> bool" where
  "no_nan_clash df \<longleftrightarrow>
     list_all (\<lambda>f. case map_of df f of None \<Rightarrow> True
                   | Some col \<Rightarrow> \<not> (NaN \<in> set col \<and> Str ''nan'' \<in> set col)) ohe_features"

text \<open>\<open>blank B df\<close> empties the columns of \<open>df\<close> whose label is in \<open>B\<close>: two frames
  with the same \<open>blank B\<close> differ at most in what those columns hold. The notebook drops
  \<^verbatim>\<open>block\<close>, \<^verbatim>\<open>street_name\<close> and \<^verbatim>\<open>lease_commence_date\<close> without reading them.\<close>

definition blank :: "string set \<Rightarrow> 'f frame \<Rightarrow> 'f frame" where
  "blank B df = map (\<lambda>kv. if fst kv \<in> B then (fst kv, []) else kv) df"

definition unused_columns :: "string set" where
  "unused_columns = {''block'', ''street_name'', ''lease_commence_date''}"

text \<open>The columns that the training cells name.\<close>

definition required_columns :: "string list" where
  "required_columns =
     [''month'', ''remaining_lease'', ''lease_commence_date'', ''storey_range'', ''town'',
      ''flat_type'', ''flat_model'', ''block'', ''street_name'', ''resale_price'']"

section \<open>A small corpus\<close>

text \<open>Three sales and one flat to price, with the frames the notebook computes from them.
  The second sale and the flat have no \<^verbatim>\<open>block\<close>.\<close>

definition example_corpus :: "int frame" where
  "example_corpus =
     [(''month'', [Str ''2017-01'', Str ''2017-02'', Str ''2018-03'']),
      (''town'', [Str ''YISHUN'', Str ''BEDOK'', Str ''YISHUN'']),
      (''flat_type'', [Str ''4 ROOM'', Str ''3 ROOM'', Str ''4 ROOM'']),
      (''block'', [Str ''101'', NaN, Str ''3A'']),
      (''street_name'', [Str ''YISHUN AVE 5'', Str ''BEDOK NTH RD'', Str ''YISHUN ST 11'']),
      (''storey_range'', [Str ''01 TO 03'', Str ''10 TO 12'', Str ''04 TO 06'']),
      (''floor_area_sqm'', [FltC 92, FltC 67, FltC 90]),
      (''flat_model'', [Str ''Improved'', Str ''New Generation'', Str ''Improved'']),
      (''lease_commence_date'', [IntC 1979, IntC 1980, IntC 1990]),
      (''remaining_lease'', [Str ''61 years 04 months'', Str ''60 years 07 months'',
                            Str ''70 years 11 months'']),
      (''resale_price'', [FltC 232000, FltC 250000, FltC 400000])]"

definition example_fitted :: "int fitted" where
  "example_fitted =
     \<lparr>ohe_cats =
        [[Str ''BEDOK'', Str ''YISHUN''], [Str ''3 ROOM'', Str ''4 ROOM''],
         [Str ''Improved'', Str ''New Generation'']],
      df_final =
        [(''floor_area_sqm'', [FltC 92, FltC 67, FltC 90]),
         (''resale_price'', [FltC 232000, FltC 250000, FltC 400000]),
         (''sale_year'', [IntC 2017, IntC 2017, IntC 2018]),
         (''sale_month'', [IntC 1, IntC 2, IntC 3]),
         (''years_remaining'', [IntC 61, IntC 60, IntC 70]),
         (''months_remaining'', [IntC 4, IntC 7, IntC 11]),
         (''storey'', [IntC 0, IntC 3, IntC 1]),
         (''x0_BEDOK'', [IntC 0, IntC 1, IntC 0]),
         (''x0_YISHUN'', [IntC 1, IntC 0, IntC 1]),
         (''x1_3 ROOM'', [IntC 0, IntC 1, IntC 0]),
         (''x1_4 ROOM'', [IntC 1, IntC 0, IntC 1]),
         (''x2_Improved'', [IntC 1, IntC 0, IntC 1]),
         (''x2_New Generation'', [IntC 0, IntC 1, IntC 0])],
      features =
        [(''floor_area_sqm'', [FltC 92, FltC 67, FltC 90]),
         (''sale_year'', [IntC 2017, IntC 2017, IntC 2018]),
         (''sale_month'', [IntC 1, IntC 2, IntC 3]),
         (''years_remaining'', [IntC 61, IntC 60, IntC 70]),
         (''months_remaining'', [IntC 4, IntC 7, IntC 11]),
         (''storey'', [IntC 0, IntC 3, IntC 1]),
         (''x0_BEDOK'', [IntC 0, IntC 1, IntC 0]),
         (''x0_YISHUN'', [IntC 1, IntC 0, IntC 1]),
         (''x1_3 ROOM'', [IntC 0, IntC 1, IntC 0]),
         (''x1_4 ROOM'', [IntC 1, IntC 0, IntC 1]),
         (''x2_Improved'', [IntC 1, IntC 0, IntC 1]),
         (''x2_New Generation'', [IntC 0, IntC 1, IntC 0])],
      labels = [FltC 232000, FltC 250000, FltC 400000]\<rparr>"

definition example_flat :: "int frame" where
  "example_flat =
     [(''town'', [Str ''YISHUN'']),
      (''flat_type'', [Str ''4 ROOM'']),
      (''block'', [NaN]),
      (''street_name'', [Str ''YISHUN RING RD'']),
      (''storey_range'', [Str ''01 TO 03'']),
      (''floor_area_sqm'', [FltC 93]),
      (''flat_model'', [Str ''Improved'']),
      (''lease_commence_date'', [IntC 1988]),
      (''remaining_lease'', [Str ''62 years 05 months'']),
      (''month'', [Str ''2025-07''])]"

definition example_row :: "int frame" where
  "example_row =
        [(''floor_area_sqm'', [FltC 93]),
         (''sale_year'', [IntC 2025]),
         (''sale_month'', [IntC 7]),
         (''years_remaining'', [IntC 62]),
         (''months_remaining'', [IntC 5]),
         (''storey'', [IntC 0]),
         (''x0_BEDOK'', [IntC 0]),
         (''x0_YISHUN'', [IntC 1]),
         (''x1_3 ROOM'', [IntC 0]),
         (''x1_4 ROOM'', [IntC 1]),
         (''x2_Improved'', [IntC 1]),
         (''x2_New Generation'', [IntC 0])]"

text \<open>The row assembled for the flat by cells 43 to 45, and the same for the flat with one
  more column in its file.\<close>

definition example_assembled :: "int frame" where
  "example_assembled =
     [(''floor_area_sqm'', [FltC 93]),
      (''sale_year'', [IntC 2025]),
      (''sale_month'', [IntC 7]),
      (''storey'', [IntC 0]),
      (''x0_BEDOK'', [IntC 0]),
      (''x0_YISHUN'', [IntC 1]),
      (''x1_3 ROOM'', [IntC 0]),
      (''x1_4 ROOM'', [IntC 1]),
      (''x2_Improved'', [IntC 1]),
      (''x2_New Generation'', [IntC 0]),
      (''years_remaining'', [IntC 62]),
      (''months_remaining'', [IntC 5])]"

definition example_flat_extra :: "int frame" where
  "example_flat_extra = example_flat @ [(''remarks'', [Str ''corner unit''])]"

definition example_assembled_extra :: "int frame" where
  "example_assembled_extra =
     [(''floor_area_sqm'', [FltC 93]),
      (''remarks'', [Str ''corner unit'']),
      (''sale_year'', [IntC 2025]),
      (''sale_month'', [IntC 7]),
      (''storey'', [IntC 0]),
      (''x0_BEDOK'', [IntC 0]),
      (''x0_YISHUN'', [IntC 1]),
      (''x1_3 ROOM'', [IntC 0]),
      (''x1_4 ROOM'', [IntC 1]),
      (''x2_Improved'', [IntC 1]),
      (''x2_New Generation'', [IntC 0]),
      (''years_remaining'', [IntC 62]),
      (''months_remaining'', [IntC 5])]"


text \<open>Variants of the corpus and of the flat: every \<^verbatim>\<open>block\<close> filled in, a null lease, a
  null month, no \<^verbatim>\<open>block\<close> column.\<close>

definition example_corpus_filled :: "int frame" where
  "example_corpus_filled = set_col ''block'' [Str ''101'', Str ''55'', Str ''3A''] example_corpus"

definition example_corpus_null_lease :: "int frame" where
  "example_corpus_null_lease =
     set_col ''remaining_lease'' [Str ''61 years 04 months'', NaN, Str ''70 years 11 months'']
       example_corpus"

definition example_corpus_no_block :: "int frame" where
  "example_corpus_no_block = filter (\<lambda>kv. fst kv \<noteq> ''block'') example_corpus"

definition example_flat_filled :: "int frame" where
  "example_flat_filled = set_col ''block'' [Str ''742''] example_flat"

definition example_flat_null_month :: "int frame" where
  "example_flat_null_month = set_col ''month'' [NaN] example_flat"




section \<open>Basic facts\<close>

lemma bind_Inr_iff: "bind m f = Inr y \<longleftrightarrow> (\<exists>x. m = Inr x \<and> f x = Inr y)"
  by (cases m) (simp_all add: bind_def)


lemma mapM_Inr_D: "mapM f xs = Inr ys \<Longrightarrow> list_all2 (\<lambda>x y. f x = Inr y) xs ys"
  by (induction xs arbitrary: ys) (auto split: sum.splits)

lemma mapM_Inr_I: "list_all2 (\<lambda>x y. f x = Inr y) xs ys \<Longrightarrow> mapM f xs = Inr ys"
  by (induction rule: list_all2_induct) auto

lemma mapM_Inr_iff: "mapM f xs = Inr ys \<longleftrightarrow> list_all2 (\<lambda>x y. f x = Inr y) xs ys"
  using mapM_Inr_D mapM_Inr_I by blast

lemma mapM_Inl_mem: "mapM f xs = Inl e \<Longrightarrow> \<exists>x \<in> set xs. f x = Inl e"
  by (induction xs) (auto split: sum.splits)

lemma mapM_all_Inl:
  assumes "x \<in> set xs" and "f x = Inl e"
    and "\<forall>z \<in> set xs. f z = Inl e \<or> (\<exists>y. f z = Inr y)"
  shows "mapM f xs = Inl e"
  using assms
proof (induction xs)
  case Nil
  then show ?case by simp
next
  case (Cons a xs)
  show ?case
  proof (cases "f a")
    case (Inl e')
    then show ?thesis using Cons.prems(3) by auto
  next
    case (Inr b)
    then have "x \<noteq> a" using Cons.prems(2) by auto
    then have "x \<in> set xs" using Cons.prems(1) by simp
    moreover have "\<forall>z \<in> set xs. f z = Inl e \<or> (\<exists>y. f z = Inr y)"
      using Cons.prems(3) by simp
    ultimately have "mapM f xs = Inl e" using Cons.IH Cons.prems(2) by blast
    with Inr show ?thesis by simp
  qed
qed

lemma index_of_None: "index_of x xs = None \<longleftrightarrow> x \<notin> set xs"
  by (induction xs) auto

lemma index_of_nth: "distinct xs \<Longrightarrow> i < length xs \<Longrightarrow> index_of (xs ! i) xs = Some i"
proof (induction xs arbitrary: i)
  case Nil
  then show ?case by simp
next
  case (Cons a xs)
  then show ?case by (cases i) auto
qed

lemma index_of_Some: "index_of x xs = Some i \<Longrightarrow> i < length xs \<and> xs ! i = x"
proof (induction xs arbitrary: i)
  case Nil
  then show ?case by simp
next
  case (Cons a xs)
  then show ?case by (auto split: if_splits)
qed

lemma length_storey_cat: "length storey_cat = 17"
  by (simp add: storey_cat_def)

lemma distinct_storey_cat: "distinct storey_cat"
  by (simp add: storey_cat_def)

lemma sorted_storey_cat: "sorted_wrt (<) storey_cat"
  by (simp add: storey_cat_def)

lemma oe_cell_unknown:
  assumes "c \<notin> Str ` set storey_cat"
  shows "oe_cell c = Inl ValueError"
proof (cases c)
  case (Str s)
  with assms have "s \<notin> set storey_cat" by auto
  then have "index_of s storey_cat = None" by (simp add: index_of_None)
  with Str show ?thesis by (simp add: oe_cell_def)
qed (simp_all add: oe_cell_def)

lemma oe_cell_error: "oe_cell z = Inl ValueError \<or> (\<exists>y. oe_cell z = Inr y)"
  by (auto simp: oe_cell_def split: cell.splits option.splits)

lemma holds_str_iff: "holds_str col \<longleftrightarrow> (\<exists>s. Str s \<in> set col)"
proof -
  have "str_of c \<noteq> None \<longleftrightarrow> (\<exists>s. c = Str s)" for c :: "'a cell"
    by (cases c) auto
  then show ?thesis by (auto simp: holds_str_def list_ex_iff)
qed

lemma holds_str_strings: "holds_str (map Str ss) \<longleftrightarrow> ss \<noteq> []"
  by (cases ss) (auto simp: holds_str_iff)

lemma oe_transform_unknown:
  assumes "holds_str col" and "c \<in> set col" and "c \<notin> Str ` set storey_cat"
  shows "oe_transform col = Inl ValueError"
proof -
  have "mapM oe_cell col = Inl ValueError"
    using assms(2) oe_cell_unknown[OF assms(3)] oe_cell_error
      mapM_all_Inl[of c col oe_cell ValueError] by blast
  moreover have "col \<noteq> []" using assms(2) by auto
  ultimately show ?thesis using assms(1) by (simp add: oe_transform_def)
qed

lemma mapM_map_Inr:
  "(\<And>x. x \<in> set xs \<Longrightarrow> f (g x) = Inr (h x)) \<Longrightarrow> mapM f (map g xs) = Inr (map h xs)"
  by (induction xs) simp_all

lemma oe_cell_rank:
  "i < 17 \<Longrightarrow> oe_cell (Str (storey_cat ! i)) = Inr (IntC (int i))"
  by (simp add: oe_cell_def index_of_nth distinct_storey_cat length_storey_cat)

lemma oe_transform_ranks:
  fixes col :: "'f cell list"
  assumes "ps \<noteq> []" and "\<forall>i \<in> set ps. i < 17"
    and "col = map (\<lambda>i. Str (storey_cat ! i)) ps"
  shows "oe_transform col = Inr (map (\<lambda>i. IntC (int i)) ps)"
    and "oe_fit_transform col = Inr (map (\<lambda>i. IntC (int i)) ps)"
proof -
  have m: "mapM oe_cell col = Inr (map (\<lambda>i. IntC (int i)) ps)"
    unfolding assms(3) using assms(2) by (intro mapM_map_Inr) (simp add: oe_cell_rank)
  have h: "holds_str col" using assms(1,3) by (cases ps) (auto simp: holds_str_iff)
  have n: "col \<noteq> []" using assms(1,3) by simp
  from m h n show t: "oe_transform col = Inr (map (\<lambda>i. IntC (int i)) ps)"
    by (simp add: oe_transform_def)
  have "\<forall>c \<in> set col. c \<in> Str ` set storey_cat"
    using assms(2,3) by (auto simp: length_storey_cat)
  then have "oe_fit col = Inr ()" using h n by (simp add: oe_fit_def)
  with t show "oe_fit_transform col = Inr (map (\<lambda>i. IntC (int i)) ps)"
    by (simp add: oe_fit_transform_def bind_def)
qed

lemma oe_strings_unknown:
  fixes col :: "'f cell list"
  assumes "s \<in> set ss" and "s \<notin> set storey_cat" and "col = map Str ss"
  shows "oe_transform col = Inl ValueError"
    and "oe_fit_transform col = Inl ValueError"
proof -
  have h: "holds_str col" using assms(1,3) by (auto simp: holds_str_strings)
  have c: "Str s \<in> set col" "(Str s :: 'f cell) \<notin> Str ` set storey_cat"
    using assms by auto
  show "oe_transform col = Inl ValueError"
    using h c by (rule oe_transform_unknown)
  have "oe_fit col = Inl ValueError"
    using c by (auto simp: oe_fit_def)
  then show "oe_fit_transform col = Inl ValueError"
    by (simp add: oe_fit_transform_def bind_def)
qed

section \<open>Splitting and \<^verbatim>\<open>int()\<close>\<close>

lemma digit_not_space: "is_digit c \<Longrightarrow> \<not> is_space c"
  by (auto simp: is_digit_def is_space_def Let_def)

lemma digit_not_int_space: "is_digit c \<Longrightarrow> \<not> is_int_space c"
  by (auto simp: is_digit_def is_int_space_def Let_def)

lemma digit_not_special:
  "is_digit c \<Longrightarrow> c \<noteq> CHR ''_'' \<and> c \<noteq> CHR ''+'' \<and> c \<noteq> CHR ''-'' \<and> c \<noteq> CHR '' ''"
  by (auto simp: is_digit_def)

lemma split_ws_run:
  "\<forall>c \<in> set w. \<not> is_space c \<Longrightarrow> split_ws cur (w @ rest) = split_ws (cur @ w) rest"
  by (induction w arbitrary: cur) auto

lemma split_on_run:
  "sep \<notin> set w \<Longrightarrow> split_on sep cur (w @ rest) = split_on sep (cur @ w) rest"
  by (induction w arbitrary: cur) auto


lemma digits_ok_all: "s \<noteq> [] \<Longrightarrow> list_all is_digit s \<Longrightarrow> digits_ok s"
  by (induction s rule: digits_ok.induct) (auto dest: digit_not_special)


lemma strip_digits: "all_digits s \<Longrightarrow> strip s = s"
proof -
  assume a: "all_digits s"
  then obtain c cs where s: "s = c # cs" by (cases s) (auto simp: all_digits_def)
  have "\<not> is_int_space c" using a s by (auto simp: all_digits_def digit_not_int_space)
  then have 1: "dropWhile is_int_space s = s" using s by simp
  have "rev s \<noteq> []" using s by simp
  then obtain d ds where r: "rev s = d # ds" by (cases "rev s") auto
  then have "d \<in> set s" by (metis list.set_intros(1) set_rev)
  then have "\<not> is_int_space d" using a by (auto simp: all_digits_def list_all_iff digit_not_int_space)
  then have "dropWhile is_int_space (rev s) = rev s" using r by simp
  with 1 show ?thesis by (simp add: strip_def)
qed

lemma py_int_digits: "all_digits s \<Longrightarrow> py_int s = Inr (digits_val s)"
proof -
  assume a: "all_digits s"
  then obtain c cs where s: "s = c # cs" by (cases s) (auto simp: all_digits_def)
  have c: "is_digit c" using a s by (simp add: all_digits_def)
  have ok: "digits_ok (c # cs)" using a s digits_ok_all by (simp add: all_digits_def)
  have f: "filter (\<lambda>d. d \<noteq> CHR ''_'') (c # cs) = c # cs"
    using a s by (auto simp: all_digits_def list_all_iff filter_id_conv dest: digit_not_special)
  show ?thesis
    using strip_digits[OF a] s digit_not_special[OF c] ok f
    by (simp add: py_int_def del: digits_ok.simps filter.simps)
qed


lemma years_prefix:
  assumes "all_digits n"
  shows "years_remaining (n @ CHR '' '' # rest) = Inr (digits_val n)"
proof -
  have ns: "\<forall>c \<in> set n. \<not> is_space c"
    using assms by (auto simp: all_digits_def list_all_iff digit_not_space)
  have "n \<noteq> []" using assms by (simp add: all_digits_def)
  then have "py_split (n @ CHR '' '' # rest) = n # split_ws [] rest"
    using split_ws_run[OF ns, of "[]"] by (simp add: py_split_def is_space_def)
  then show ?thesis
    using py_int_digits[OF assms] by (simp add: years_remaining_def py_index_def bind_def)
qed

lemma split_sep_prefix:
  assumes "all_digits n"
  shows "py_split_sep CHR '' '' (n @ CHR '' '' # rest) = n # py_split_sep CHR '' '' rest"
proof -
  have "CHR '' '' \<notin> set n"
    using assms by (auto simp: all_digits_def list_all_iff dest: digit_not_special)
  then show ?thesis using split_on_run[of "CHR '' ''" n "[]"] by (simp add: py_split_sep_def)
qed

lemma split_sep_digits:
  assumes "all_digits n"
  shows "py_split_sep CHR '' '' n = [n]"
proof -
  have "CHR '' '' \<notin> set n"
    using assms by (auto simp: all_digits_def list_all_iff dest: digit_not_special)
  then show ?thesis using split_on_run[of "CHR '' ''" n "[]" "[]"] by (simp add: py_split_sep_def)
qed

lemma lease_four_tokens:
  assumes "all_digits n" and "all_digits m"
  shows "lease_fields (n @ '' years '' @ m @ '' months'') = Inr (digits_val n, digits_val m)"
proof -
  have y: "years_remaining (n @ '' years '' @ m @ '' months'') = Inr (digits_val n)"
    using years_prefix[OF assms(1)] by simp
  have "py_split_sep CHR '' '' (n @ '' years '' @ m @ '' months'')
        = n # ''years'' # py_split_sep CHR '' '' (m @ '' months'')"
    using split_sep_prefix[OF assms(1), of "''years '' @ m @ '' months''"]
    by (simp add: py_split_sep_def)
  also have "py_split_sep CHR '' '' (m @ '' months'') = [m, ''months'']"
    using split_sep_prefix[OF assms(2), of "''months''"] by (simp add: py_split_sep_def)
  finally have "months_remaining (n @ '' years '' @ m @ '' months'') = Inr (digits_val m)"
    using py_int_digits[OF assms(2)] by (simp add: months_remaining_def py_index_def bind_def)
  with y show ?thesis by (simp add: lease_fields_def bind_def)
qed

lemma lease_two_tokens:
  assumes "all_digits n"
  shows "lease_fields (n @ '' years'') = Inr (digits_val n, digits_val n)"
proof -
  have y: "years_remaining (n @ '' years'') = Inr (digits_val n)"
    using years_prefix[OF assms(1)] by simp
  have "py_split_sep CHR '' '' (n @ '' years'') = [n, ''years'']"
    using split_sep_prefix[OF assms(1), of "''years''"] by (simp add: py_split_sep_def)
  then have "months_remaining (n @ '' years'') = Inr (digits_val n)"
    using py_int_digits[OF assms(1)] by (simp add: months_remaining_def py_index_def bind_def)
  with y show ?thesis by (simp add: lease_fields_def bind_def)
qed
















section \<open>Frames and cells of the notebook\<close>

lemma columns_set_col:
  "columns (set_col c vs df) = (if c \<in> set (columns df) then columns df else columns df @ [c])"
  by (simp add: columns_def set_col_def update_keys)

lemma distinct_set_col: "distinct (columns df) \<Longrightarrow> distinct (columns (set_col c vs df))"
  by (simp add: columns_set_col)

lemma get_col_set_col:
  "get_col (set_col c vs df) c' = (if c' = c then Inr vs else get_col df c')"
  by (simp add: get_col_def set_col_def update_conv')

lemma map_of_filter_keys:
  "map_of (filter (\<lambda>kv. fst kv \<notin> S) df) c = (if c \<in> S then None else map_of df c)"
  by (induction df) auto

lemma drop_cols_Inr:
  "drop_cols cs df = Inr df' \<longleftrightarrow>
     set cs \<subseteq> set (columns df) \<and> df' = filter (\<lambda>kv. fst kv \<notin> set cs) df"
  by (auto simp: drop_cols_def)

lemma drop_cols_Inl: "drop_cols cs df = Inl e \<longleftrightarrow> \<not> set cs \<subseteq> set (columns df) \<and> e = KeyError"
  by (auto simp: drop_cols_def)

lemma get_col_drop:
  "drop_cols cs df = Inr df' \<Longrightarrow>
     get_col df' c = (if c \<in> set cs then Inl KeyError else get_col df c)"
  by (simp add: drop_cols_Inr get_col_def map_of_filter_keys)

lemma columns_drop:
  "drop_cols cs df = Inr df' \<Longrightarrow> columns df' = filter (\<lambda>c. c \<notin> set cs) (columns df)"
  by (simp add: drop_cols_Inr columns_def filter_map comp_def)

lemma join_Inr:
  "join df other = Inr df' \<longleftrightarrow>
     set (columns df) \<inter> set (columns other) = {} \<and> df' = df @ other"
  by (auto simp: join_def)

lemma map_of_None_columns: "map_of df c = None \<longleftrightarrow> c \<notin> set (columns df)"
  by (simp add: columns_def map_of_eq_None_iff)

lemma get_col_Inl: "get_col df c = Inl e \<longleftrightarrow> c \<notin> set (columns df) \<and> e = KeyError"
  unfolding get_col_def using map_of_None_columns[of df c] by (cases "map_of df c") auto


lemma get_col_append:
  "c \<notin> set (columns other) \<Longrightarrow> get_col (df @ other) c = get_col df c"
proof -
  assume "c \<notin> set (columns other)"
  then have "map_of other c = None" by (simp add: map_of_None_columns)
  then show ?thesis by (cases "map_of df c") (simp_all add: get_col_def map_add_def)
qed

lemma feature_names_x: "n \<in> set (get_feature_names cats) \<Longrightarrow> \<exists>r. n = CHR ''x'' # r"
  by (auto simp: get_feature_names_def input_features_def dest!: set_zip_leftD)

lemma columns_zip_subset: "set (columns (zip ns vs)) \<subseteq> set ns"
  by (auto simp: columns_def dest: set_zip_leftD)

lemma cell15_keeps:
  assumes "cell15 df = Inr df'"
    and "c \<notin> {''sale_date'', ''sale_year'', ''sale_month'', ''month''}"
  shows "get_col df' c = get_col df c"
  using assms by (auto simp: cell15_def bind_Inr_iff get_col_drop get_col_set_col)

lemma cell17_keeps:
  assumes "cell17 df = Inr df'"
    and "c \<notin> {''years_remaining'', ''months_remaining'', ''remaining_lease'', ''lease_commence_date''}"
  shows "get_col df' c = get_col df c"
  using assms by (auto simp: cell17_def bind_Inr_iff get_col_drop get_col_set_col)

lemma cell19_keeps:
  assumes "cell19 df = Inr df'" and "c \<noteq> ''storey''"
  shows "get_col df' c = get_col df c"
  using assms by (auto simp: cell19_def bind_Inr_iff get_col_set_col)

lemma cell21_keeps:
  assumes "cell21 df = Inr (cats, df')" and "\<forall>r. c \<noteq> CHR ''x'' # r"
  shows "get_col df' c = get_col df c"
proof -
  from assms(1) obtain enc where "df' = df @ zip (get_feature_names cats) enc"
    by (auto simp: cell21_def bind_Inr_iff join_Inr)
  moreover have "c \<notin> set (columns (zip (get_feature_names cats) enc))"
    using assms(2) feature_names_x columns_zip_subset by blast
  ultimately show ?thesis by (simp add: get_col_append)
qed

lemma cell37_keeps:
  assumes "cell37 df = Inr df'"
    and "c \<notin> {''town'', ''flat_type'', ''flat_model'', ''storey_range'', ''block'', ''street_name''}"
  shows "get_col df' c = get_col df c"
  using assms by (auto simp: cell37_def get_col_drop)

lemma train_stages:
  assumes "train df = Inr st"
  obtains df1 df2 df3 df4 where
    "cell15 df = Inr df1" "cell17 df1 = Inr df2" "cell19 df2 = Inr df3"
    "cell21 df3 = Inr (ohe_cats st, df4)" "cell37 df4 = Inr (df_final st)"
    "cell38 (df_final st) = Inr (features st, labels st)"
proof -
  from assms obtain df1 df2 df3 p df5 q where s:
    "cell15 df = Inr df1" "cell17 df1 = Inr df2" "cell19 df2 = Inr df3"
    "cell21 df3 = Inr p" "cell37 (snd p) = Inr df5" "cell38 df5 = Inr q"
    "st = \<lparr>ohe_cats = fst p, df_final = df5, features = fst q, labels = snd q\<rparr>"
    unfolding train_def bind_Inr_iff by blast
  show ?thesis
    using that[of df1 df2 df3 "snd p"] s by simp
qed

lemma train_example: "train example_corpus = Inr example_fitted"
  by code_simp

lemma predict_example:
  "bind (assemble example_fitted example_flat) (aligned example_fitted) = Inr example_row"
  by code_simp

section \<open>Facts about the one-hot encoder\<close>

lemma str_of_Some: "str_of c = Some s \<longleftrightarrow> c = Str s"
  by (cases c) auto

lemma set_map_filter_str_of: "set (List.map_filter str_of col) = {s. Str s \<in> set col}"
  by (induction col) (auto simp: str_of_Some split: option.splits)

lemma ohe_categories_Inr:
  assumes "ohe_categories col = Inr cs"
  shows "distinct cs" and "set cs = set col"
proof -
  let ?strs = "List.map_filter str_of col"
  from assms have others: "filter (\<lambda>c. str_of c = None \<and> c \<noteq> NaN) col = []"
    and cs: "cs = map Str (sort (remdups ?strs)) @ (if NaN \<in> set col then [NaN] else [])"
    by (auto simp: ohe_categories_def Let_def split: if_splits)
  have "distinct (map Str (sort (remdups ?strs)))"
    by (simp add: distinct_map inj_on_def)
  then show "distinct cs" using cs by auto
  have all: "\<forall>c \<in> set col. c = NaN \<or> (\<exists>s. c = Str s)"
  proof
    fix c assume "c \<in> set col"
    with others have "\<not> (str_of c = None \<and> c \<noteq> NaN)" by (auto simp: filter_empty_conv)
    then show "c = NaN \<or> (\<exists>s. c = Str s)" by (cases c) auto
  qed
  have "set (map Str (sort (remdups ?strs))) = {c \<in> set col. \<exists>s. c = Str s}"
    by (auto simp: set_map_filter_str_of)
  then show "set cs = set col" using cs all by auto
qed

lemma mapM_three:
  assumes "mapM f [a, b, c] = Inr ys"
  obtains x y z where "ys = [x, y, z]" "f a = Inr x" "f b = Inr y" "f c = Inr z"
  using assms unfolding mapM_Inr_iff by (auto simp: list_all2_Cons1)


lemma count_one:
  assumes "distinct cs" and "v \<in> set cs"
  shows "length (filter (\<lambda>c. v = c) cs) = 1"
proof -
  have "{c. v = c} \<inter> set cs = {v}" using assms(2) by auto
  then show ?thesis using distinct_length_filter[OF assms(1), of "\<lambda>c. v = c"] by simp
qed

lemma one_hot_indicators:
  assumes "distinct cs" and "r < length col" and "col ! r \<in> set cs"
  shows "one_hot_row (indicator_row (indicators cs col) r)"
    and "length (indicator_row (indicators cs col) r) = length cs"
proof -
  let ?v = "col ! r"
  have row: "indicator_row (indicators cs col) r = map (\<lambda>c. IntC (if ?v = c then 1 else 0)) cs"
    using assms(2) by (simp add: indicator_row_def indicators_def)
  have ones: "filter (\<lambda>x. x = IntC 1) (map (\<lambda>c. IntC (if ?v = c then 1 else 0)) cs)
        = map (\<lambda>c. IntC (if ?v = c then 1 else 0)) (filter (\<lambda>c. ?v = c) cs)"
    by (induction cs) auto
  have zeros: "filter (\<lambda>x. x = IntC 0) (map (\<lambda>c. IntC (if ?v = c then 1 else 0)) cs)
        = map (\<lambda>c. IntC (if ?v = c then 1 else 0)) (filter (\<lambda>c. ?v \<noteq> c) cs)"
    by (induction cs) auto
  have "length (filter (\<lambda>c. ?v = c) cs) + length (filter (\<lambda>c. ?v \<noteq> c) cs) = length cs"
    using sum_length_filter_compl[of "\<lambda>c. ?v = c" cs] by (simp add: comp_def)
  then have "length (filter (\<lambda>c. ?v \<noteq> c) cs) = length cs - 1"
    using count_one[OF assms(1,3)] by simp
  then show "one_hot_row (indicator_row (indicators cs col) r)"
    using count_one[OF assms(1,3)] by (simp add: one_hot_row_def row ones zeros)
  show "length (indicator_row (indicators cs col) r) = length cs" by (simp add: row)
qed

lemma ohe_fit_Inr:
  assumes "ohe_fit df = Inr cats"
  shows "\<exists>t1 t2 t3 c1 c2 c3. cats = [t1, t2, t3]
          \<and> get_col df ''town'' = Inr c1 \<and> get_col df ''flat_type'' = Inr c2
          \<and> get_col df ''flat_model'' = Inr c3
          \<and> distinct t1 \<and> distinct t2 \<and> distinct t3
          \<and> set t1 = set c1 \<and> set t2 = set c2 \<and> set t3 = set c3"
proof -
  from assms obtain cols where cols: "mapM (get_col df) ohe_features = Inr cols"
    and cats: "mapM ohe_categories cols = Inr cats"
    by (auto simp: ohe_fit_def bind_Inr_iff split: if_splits)
  from cols obtain a b c where abc: "cols = [a, b, c]" "get_col df ''town'' = Inr a"
    "get_col df ''flat_type'' = Inr b" "get_col df ''flat_model'' = Inr c"
    unfolding ohe_features_def by (rule mapM_three)
  from cats abc(1) obtain t1 t2 t3 where t: "cats = [t1, t2, t3]" "ohe_categories a = Inr t1"
    "ohe_categories b = Inr t2" "ohe_categories c = Inr t3"
    using mapM_three[of ohe_categories a b c cats] by blast
  have "distinct t1 \<and> distinct t2 \<and> distinct t3 \<and> set t1 = set a \<and> set t2 = set b \<and> set t3 = set c"
    using t(2-4) ohe_categories_Inr by blast
  with t(1) abc(2-4) show ?thesis by blast
qed

lemma ohe_column_Inr:
  "ohe_column cs col = Inr b \<longleftrightarrow>
     \<not> (\<not> holds_str col \<and> holds_str cs) \<and> set col \<subseteq> set cs \<and> b = indicators cs col"
  by (auto simp: ohe_column_def)

lemma ohe_transform_three:
  assumes "mapM (get_col m) ohe_features = Inr [a, b, c]" and "[] \<notin> set [a, b, c]"
  shows "ohe_transform [t1, t2, t3] m =
           bind (ohe_column t1 a) (\<lambda>x. bind (ohe_column t2 b) (\<lambda>y. bind (ohe_column t3 c)
             (\<lambda>z. Inr (x @ y @ z))))"
  using assms by (auto simp: ohe_transform_def bind_def split: sum.splits)

lemma ohe_transform_Inr:
  assumes "ohe_transform [t1, t2, t3] m = Inr enc"
  obtains c1 c2 c3 where "get_col m ''town'' = Inr c1" "get_col m ''flat_type'' = Inr c2"
    "get_col m ''flat_model'' = Inr c3"
    "set c1 \<subseteq> set t1" "set c2 \<subseteq> set t2" "set c3 \<subseteq> set t3"
    "enc = indicators t1 c1 @ indicators t2 c2 @ indicators t3 c3"
proof -
  from assms obtain cols where cols: "mapM (get_col m) ohe_features = Inr cols"
    and ne: "[] \<notin> set cols"
    by (auto simp: ohe_transform_def bind_Inr_iff split: if_splits)
  from cols obtain a b c where abc: "cols = [a, b, c]" "get_col m ''town'' = Inr a"
    "get_col m ''flat_type'' = Inr b" "get_col m ''flat_model'' = Inr c"
    unfolding ohe_features_def by (rule mapM_three)
  from assms have "set a \<subseteq> set t1" "set b \<subseteq> set t2" "set c \<subseteq> set t3"
    "enc = indicators t1 a @ indicators t2 b @ indicators t3 c"
    unfolding ohe_transform_three[OF cols[unfolded abc(1)] ne[unfolded abc(1)]]
    by (auto simp: bind_Inr_iff ohe_column_Inr)
  then show ?thesis using that[of a b c] abc by blast
qed

section \<open>Column labels through the cells\<close>

lemma distinct_drop:
  "drop_cols cs df = Inr df' \<Longrightarrow> distinct (columns df) \<Longrightarrow> distinct (columns df')"
  by (simp add: columns_drop)

lemma columns_zip: "columns (zip ns vs) = take (min (length ns) (length vs)) ns"
  by (simp add: columns_def map_fst_zip_take)

lemma map_of_Some_columns: "map_of df c = Some v \<Longrightarrow> c \<in> set (columns df)"
  using map_of_None_columns[of df c] by auto

lemma distinct_join:
  assumes "join df (zip ns vs) = Inr df'" and "distinct (columns df)" and "distinct ns"
  shows "distinct (columns df')"
proof -
  from assms(1) have d: "set (columns df) \<inter> set (columns (zip ns vs)) = {}"
    and e: "df' = df @ zip ns vs" by (auto simp: join_Inr)
  have "distinct (columns (zip ns vs))" using assms(3) by (simp add: columns_zip)
  with d e assms(2) show ?thesis by (simp add: columns_def)
qed

lemma ohe_categories_cells:
  assumes "ohe_categories col = Inr cs" and "c \<in> set cs"
  shows "c = NaN \<or> (\<exists>s. c = Str s)"
proof -
  from assms(1) have "filter (\<lambda>c. str_of c = None \<and> c \<noteq> NaN) col = []"
    by (auto simp: ohe_categories_def Let_def split: if_splits)
  moreover have "c \<in> set col" using assms ohe_categories_Inr(2) by blast
  ultimately have "\<not> (str_of c = None \<and> c \<noteq> NaN)" by (auto simp: filter_empty_conv)
  then show ?thesis by (cases c) auto
qed

lemma cell_text_inj:
  assumes "\<forall>c \<in> set cs. c = NaN \<or> (\<exists>s. c = Str s)"
    and "\<not> (NaN \<in> set cs \<and> Str ''nan'' \<in> set cs)"
  shows "inj_on (\<lambda>c. p @ cell_text c) (set cs)"
proof (rule inj_onI)
  fix a b assume a: "a \<in> set cs" and b: "b \<in> set cs" and e: "p @ cell_text a = p @ cell_text b"
  from e have t: "cell_text a = cell_text b" by simp
  from a b assms(1) have "(a = NaN \<or> (\<exists>s. a = Str s)) \<and> (b = NaN \<or> (\<exists>s. b = Str s))" by blast
  then show "a = b" using t a b assms(2) by auto
qed

lemma distinct_feature_names:
  assumes "distinct t1" "distinct t2" "distinct t3"
    and "\<forall>t \<in> {t1, t2, t3}. (\<forall>c \<in> set t. c = NaN \<or> (\<exists>s. c = Str s))
           \<and> \<not> (NaN \<in> set t \<and> Str ''nan'' \<in> set t)"
  shows "distinct (get_feature_names [t1, t2, t3])"
proof -
  have i: "inj_on (\<lambda>c. p @ cell_text c) (set t)" if "t \<in> {t1, t2, t3}" for t and p :: string
    using assms(4) that cell_text_inj[of t p] by blast
  have "distinct (map (\<lambda>c. ''x0_'' @ cell_text c) t1)"
       "distinct (map (\<lambda>c. ''x1_'' @ cell_text c) t2)"
       "distinct (map (\<lambda>c. ''x2_'' @ cell_text c) t3)"
    using assms(1-3) i[of t1 "''x0_''"] i[of t2 "''x1_''"] i[of t3 "''x2_''"]
    by (simp_all add: distinct_map)
  then show ?thesis
    by (auto simp: get_feature_names_def input_features_def)
qed

lemma select_Inr:
  assumes "select cs m = Inr m'"
  shows "columns m' = cs" and "set cs \<subseteq> set (columns m)"
    and "\<forall>c \<in> set cs. get_col m' c = get_col m c"
proof -
  let ?f = "\<lambda>c. case map_of m c of None \<Rightarrow> Inl KeyError | Some vs \<Rightarrow> Inr (c, vs)"
  from assms have l: "list_all2 (\<lambda>c kv. ?f c = Inr kv) cs m'"
    by (simp add: select_def mapM_Inr_iff)
  have k: "?f c = Inr kv \<longleftrightarrow> fst kv = c \<and> map_of m c = Some (snd kv)" for c kv
    by (cases "map_of m c") auto
  from l have l': "list_all2 (\<lambda>c kv. fst kv = c \<and> map_of m c = Some (snd kv)) cs m'"
    by (simp add: k)
  then show "columns m' = cs"
    by (induction rule: list_all2_induct) (auto simp: columns_def)
  from l' show "set cs \<subseteq> set (columns m)"
    by (induction rule: list_all2_induct) (auto dest: map_of_Some_columns)
  from l' show "\<forall>c \<in> set cs. get_col m' c = get_col m c"
    by (induction rule: list_all2_induct) (auto simp: get_col_def)
qed

lemma select_total: "set cs \<subseteq> set (columns m) \<Longrightarrow> \<exists>m'. select cs m = Inr m'"
proof (induction cs)
  case Nil
  then show ?case by (simp add: select_def)
next
  case (Cons c cs)
  then obtain m' where "select cs m = Inr m'" by auto
  moreover from Cons.prems obtain vs where "map_of m c = Some vs"
    using map_of_None_columns[of m c] by auto
  ultimately show ?case by (simp add: select_def)
qed

lemma select_Inl:
  assumes "\<not> set cs \<subseteq> set (columns m)"
  shows "select cs m = Inl KeyError"
proof -
  let ?f = "\<lambda>c. case map_of m c of None \<Rightarrow> Inl KeyError | Some vs \<Rightarrow> Inr (c, vs)"
  from assms obtain c where c: "c \<in> set cs" "c \<notin> set (columns m)" by blast
  then have "?f c = Inl KeyError" by (simp add: map_of_None_columns[symmetric])
  moreover have "\<forall>z \<in> set cs. ?f z = Inl KeyError \<or> (\<exists>y. ?f z = Inr y)"
    by (auto split: option.splits)
  ultimately show ?thesis
    unfolding select_def using c(1) mapM_all_Inl[of c cs ?f KeyError] by blast
qed

lemma cell38_columns:
  assumes "cell38 dfl = Inr (fs, ls)" and "distinct (columns dfl)"
  shows "columns fs = filter (\<lambda>c. c \<noteq> ''resale_price'') (columns dfl)"
    and "length (columns dfl) = length (columns fs) + 1"
    and "distinct (columns fs)"
proof -
  from assms(1) have d: "drop_cols [''resale_price''] dfl = Inr fs"
    by (auto simp: cell38_def bind_Inr_iff)
  then show c: "columns fs = filter (\<lambda>c. c \<noteq> ''resale_price'') (columns dfl)"
    by (simp add: columns_drop)
  from d have m: "''resale_price'' \<in> set (columns dfl)" by (simp add: drop_cols_Inr)
  have "length (filter (\<lambda>c. c = ''resale_price'') (columns dfl)) = 1"
    using count_one[OF assms(2) m] by (simp add: eq_commute)
  then show "length (columns dfl) = length (columns fs) + 1"
    using sum_length_filter_compl[of "\<lambda>c. c = ''resale_price''" "columns dfl"] c
    by (simp add: comp_def)
  show "distinct (columns fs)" using c assms(2) by simp
qed

lemma aligned_Inr:
  assumes "aligned st m = Inr m'"
  shows "columns m' = columns (features st)"
    and "\<forall>c \<in> set (columns (features st)). get_col m' c = get_col m c"
    and "length (columns (df_final st)) = length (columns m) + 1"
    and "set (columns (features st)) \<subseteq> set (columns m)"
  using assms select_Inr[of "columns (features st)" m m']
  by (auto simp: aligned_def cell46_def reindex_def bind_Inr_iff split: if_splits)

lemma aligned_Inl:
  assumes "aligned st m = Inl e"
  shows "e = AssertionError \<and> length (columns (df_final st)) \<noteq> length (columns m) + 1
       \<or> e = KeyError \<and> \<not> set (columns (features st)) \<subseteq> set (columns m)"
proof (cases "length (columns (df_final st)) = length (columns m) + 1")
  case False
  with assms show ?thesis by (simp add: aligned_def cell46_def bind_def)
next
  case True
  with assms have s: "select (columns (features st)) m = Inl e"
    by (simp add: aligned_def cell46_def bind_def reindex_def)
  have "\<not> set (columns (features st)) \<subseteq> set (columns m)"
  proof
    assume sub: "set (columns (features st)) \<subseteq> set (columns m)"
    have "\<exists>m'. select (columns (features st)) m = Inr m'"
      using sub by (rule select_total)
    with s show False by simp
  qed
  with s select_Inl show ?thesis by fastforce
qed

lemma aligned_mismatch:
  assumes "cell38 (df_final st) = Inr (features st, labels st)"
    and "distinct (columns (df_final st))" and "distinct (columns m)"
    and "set (columns m) \<noteq> set (columns (features st))"
  shows "aligned st m = Inl AssertionError \<or> aligned st m = Inl KeyError"
proof (cases "aligned st m")
  case (Inl e)
  then show ?thesis using aligned_Inl by blast
next
  case (Inr m')
  note c = cell38_columns[OF assms(1,2)]
  from aligned_Inr[OF Inr] have l: "length (columns (df_final st)) = length (columns m) + 1"
    and sub: "set (columns (features st)) \<subseteq> set (columns m)" by simp_all
  from l c(2) have "length (columns (features st)) = length (columns m)" by simp
  then have "card (set (columns (features st))) = card (set (columns m))"
    using c(3) assms(3) by (simp add: distinct_card)
  with sub have "set (columns (features st)) = set (columns m)"
    by (simp add: card_subset_eq)
  with assms(4) show ?thesis by simp
qed

lemma cell15_distinct: "cell15 df = Inr df' \<Longrightarrow> distinct (columns df) \<Longrightarrow> distinct (columns df')"
  by (auto simp: cell15_def bind_Inr_iff dest!: distinct_drop intro!: distinct_set_col)

lemma cell17_distinct: "cell17 df = Inr df' \<Longrightarrow> distinct (columns df) \<Longrightarrow> distinct (columns df')"
  by (auto simp: cell17_def bind_Inr_iff dest!: distinct_drop intro!: distinct_set_col)

lemma cell19_distinct: "cell19 df = Inr df' \<Longrightarrow> distinct (columns df) \<Longrightarrow> distinct (columns df')"
  by (auto simp: cell19_def bind_Inr_iff intro!: distinct_set_col)

lemma cell37_distinct: "cell37 df = Inr df' \<Longrightarrow> distinct (columns df) \<Longrightarrow> distinct (columns df')"
  unfolding cell37_def by (rule distinct_drop)

lemma cell21_Inr:
  assumes "cell21 df = Inr (cats, df')"
  obtains enc where "ohe_fit df = Inr cats" "ohe_transform cats df = Inr enc"
    "join df (zip (get_feature_names cats) enc) = Inr df'"
  using assms by (auto simp: cell21_def bind_Inr_iff)

lemma cell43_distinct: "cell43 m = Inr m' \<Longrightarrow> distinct (columns m) \<Longrightarrow> distinct (columns m')"
  by (auto simp: cell43_def bind_Inr_iff dest!: distinct_drop intro!: distinct_set_col)

lemma cell44_distinct:
  assumes "cell44 cats m = Inr m'" and "distinct (columns m)"
    and "distinct (get_feature_names cats)"
  shows "distinct (columns m')"
proof -
  from assms(1) obtain enc m1 ys ms where j: "join m (zip (get_feature_names cats) enc) = Inr m1"
    and m': "m' = set_col ''months_remaining'' ms (set_col ''years_remaining'' ys m1)"
    by (auto simp: cell44_def bind_Inr_iff)
  from distinct_join[OF j assms(2,3)] m' show ?thesis by (simp add: distinct_set_col)
qed

lemma cell45_distinct: "cell45 m = Inr m' \<Longrightarrow> distinct (columns m) \<Longrightarrow> distinct (columns m')"
  unfolding cell45_def by (rule distinct_drop)

lemma assemble_distinct:
  assumes "assemble st myflat = Inr m" and "distinct (columns myflat)"
    and "distinct (get_feature_names (ohe_cats st))"
  shows "distinct (columns m)"
proof -
  from assms(1) obtain m1 m2 where "cell43 myflat = Inr m1" "cell44 (ohe_cats st) m1 = Inr m2"
    "cell45 m2 = Inr m" by (auto simp: assemble_def bind_Inr_iff)
  then show ?thesis
    using assms(2,3) cell43_distinct cell44_distinct cell45_distinct by blast
qed

lemma train_vocabulary:
  assumes "train df = Inr st"
  shows "\<exists>t1 t2 t3 c1 c2 c3. ohe_cats st = [t1, t2, t3]
          \<and> get_col df ''town'' = Inr c1 \<and> get_col df ''flat_type'' = Inr c2
          \<and> get_col df ''flat_model'' = Inr c3
          \<and> distinct t1 \<and> distinct t2 \<and> distinct t3
          \<and> set t1 = set c1 \<and> set t2 = set c2 \<and> set t3 = set c3"
proof -
  from assms obtain df1 df2 df3 df4 where s:
    "cell15 df = Inr df1" "cell17 df1 = Inr df2" "cell19 df2 = Inr df3"
    "cell21 df3 = Inr (ohe_cats st, df4)"
    by (rule train_stages)
  have keep: "get_col df3 c = get_col df c"
    if "c = ''town'' \<or> c = ''flat_type'' \<or> c = ''flat_model''" for c
  proof -
    have "get_col df1 c = get_col df c" using s(1) that by (intro cell15_keeps) auto
    moreover have "get_col df2 c = get_col df1 c" using s(2) that by (intro cell17_keeps) auto
    moreover have "get_col df3 c = get_col df2 c" using s(3) that by (intro cell19_keeps) auto
    ultimately show ?thesis by simp
  qed
  from s(4) have "ohe_fit df3 = Inr (ohe_cats st)" by (rule cell21_Inr)
  from ohe_fit_Inr[OF this] show ?thesis by (simp add: keep)
qed

lemma str_or_nan:
  assumes "ohe_fit df = Inr cats" and "t \<in> set cats" and "c \<in> set t"
  shows "c = NaN \<or> (\<exists>s. c = Str s)"
proof -
  from assms(1) obtain cols where "mapM ohe_categories cols = Inr cats"
    by (auto simp: ohe_fit_def bind_Inr_iff split: if_splits)
  then have "list_all2 (\<lambda>col cs. ohe_categories col = Inr cs) cols cats"
    by (simp add: mapM_Inr_iff)
  with assms(2) obtain col where "ohe_categories col = Inr t"
    by (auto simp: list_all2_conv_all_nth in_set_conv_nth)
  then show ?thesis using assms(3) by (rule ohe_categories_cells)
qed

lemma train_distinct:
  assumes "train df = Inr st" and "distinct (columns df)" and "no_nan_clash df"
  shows "distinct (get_feature_names (ohe_cats st))" and "distinct (columns (df_final st))"
proof -
  from assms(1) obtain df1 df2 df3 df4 where s:
    "cell15 df = Inr df1" "cell17 df1 = Inr df2" "cell19 df2 = Inr df3"
    "cell21 df3 = Inr (ohe_cats st, df4)" "cell37 df4 = Inr (df_final st)"
    by (rule train_stages)
  from train_vocabulary[OF assms(1)] obtain t1 t2 t3 c1 c2 c3 where v:
    "ohe_cats st = [t1, t2, t3]" "get_col df ''town'' = Inr c1"
    "get_col df ''flat_type'' = Inr c2" "get_col df ''flat_model'' = Inr c3"
    "distinct t1" "distinct t2" "distinct t3"
    "set t1 = set c1" "set t2 = set c2" "set t3 = set c3" by blast
  from s(4) have fit: "ohe_fit df3 = Inr (ohe_cats st)" by (rule cell21_Inr)
  have cells: "\<forall>t \<in> {t1, t2, t3}. \<forall>c \<in> set t. c = NaN \<or> (\<exists>s. c = Str s)"
    using str_or_nan[OF fit] v(1) by auto
  have clash: "\<forall>t \<in> {t1, t2, t3}. \<not> (NaN \<in> set t \<and> Str ''nan'' \<in> set t)"
    using assms(3) v(2-4,8-10)
    by (auto simp: no_nan_clash_def ohe_features_def get_col_def split: option.splits)
  show n: "distinct (get_feature_names (ohe_cats st))"
    unfolding v(1) using v(5-7) cells clash by (intro distinct_feature_names) auto
  have "distinct (columns df3)"
    using s(1-3) assms(2) cell15_distinct cell17_distinct cell19_distinct by blast
  moreover from s(4) obtain enc where
    "join df3 (zip (get_feature_names (ohe_cats st)) enc) = Inr df4" by (rule cell21_Inr)
  ultimately have "distinct (columns df4)" using n distinct_join by blast
  with s(5) show "distinct (columns (df_final st))" by (rule cell37_distinct)
qed

lemma example_inputs:
  "distinct (columns example_corpus)" "no_nan_clash example_corpus"
  "distinct (columns example_flat)" "distinct (columns example_flat_extra)"
  by code_simp+

lemma assemble_example: "assemble example_fitted example_flat = Inr example_assembled"
  by code_simp

lemma assemble_example_extra:
  "assemble example_fitted example_flat_extra = Inr example_assembled_extra"
  by code_simp

lemma oe_cell_known: "oe_cell c = Inr r \<Longrightarrow> c \<in> Str ` set storey_cat"
  using oe_cell_unknown[of c] by auto

lemma oe_transform_Inr:
  assumes "oe_transform col = Inr r"
  shows "set col \<subseteq> Str ` set storey_cat" and "col \<noteq> []"
proof -
  from assms have m: "mapM oe_cell col = Inr r" and "col \<noteq> []"
    by (auto simp: oe_transform_def split: if_splits)
  then show "col \<noteq> []" by simp
  from m have "list_all2 (\<lambda>c y. oe_cell c = Inr y) col r" by (simp add: mapM_Inr_iff)
  then show "set col \<subseteq> Str ` set storey_cat"
    by (induction rule: list_all2_induct) (auto dest: oe_cell_known)
qed

lemma oe_fit_transform_Inr:
  "oe_fit_transform col = Inr r \<Longrightarrow> set col \<subseteq> Str ` set storey_cat"
  by (auto simp: oe_fit_transform_def bind_Inr_iff dest: oe_transform_Inr)

lemma cell43_keeps:
  assumes "cell43 m = Inr m'"
    and "c \<notin> {''sale_year'', ''sale_month'', ''month'', ''storey''}"
  shows "get_col m' c = get_col m c"
  using assms by (auto simp: cell43_def bind_Inr_iff get_col_drop get_col_set_col)


lemma train_storey:
  assumes "train df = Inr st"
  shows "\<exists>sr. get_col df ''storey_range'' = Inr sr \<and> set sr \<subseteq> Str ` set storey_cat"
proof -
  from assms obtain df1 df2 df3 where s:
    "cell15 df = Inr df1" "cell17 df1 = Inr df2" "cell19 df2 = Inr df3"
    by (rule train_stages)
  from s(3) obtain sr r where g: "get_col df2 ''storey_range'' = Inr sr"
    and o: "oe_fit_transform sr = Inr r" by (auto simp: cell19_def bind_Inr_iff)
  have "get_col df1 ''storey_range'' = get_col df ''storey_range''"
    using s(1) by (intro cell15_keeps) auto
  moreover have "get_col df2 ''storey_range'' = get_col df1 ''storey_range''"
    using s(2) by (intro cell17_keeps) auto
  ultimately have "get_col df ''storey_range'' = Inr sr" using g by simp
  with oe_fit_transform_Inr[OF o] show ?thesis by blast
qed



lemma train_keeps:
  assumes "train df = Inr st" and "c = ''floor_area_sqm'' \<or> c = ''resale_price''"
  shows "get_col (df_final st) c = get_col df c"
proof -
  from assms(1) obtain df1 df2 df3 df4 where s:
    "cell15 df = Inr df1" "cell17 df1 = Inr df2" "cell19 df2 = Inr df3"
    "cell21 df3 = Inr (ohe_cats st, df4)" "cell37 df4 = Inr (df_final st)"
    by (rule train_stages)
  have "get_col df1 c = get_col df c" using s(1) assms(2) by (intro cell15_keeps) auto
  moreover have "get_col df2 c = get_col df1 c" using s(2) assms(2) by (intro cell17_keeps) auto
  moreover have "get_col df3 c = get_col df2 c" using s(3) assms(2) by (intro cell19_keeps) auto
  moreover have "get_col df4 c = get_col df3 c" using s(4) assms(2) by (intro cell21_keeps) auto
  moreover have "get_col (df_final st) c = get_col df4 c"
    using s(5) assms(2) by (intro cell37_keeps) auto
  ultimately show ?thesis by simp
qed

section \<open>Values the encoders have not seen\<close>




section \<open>Columns the notebook never reads\<close>

lemma blank_empty: "blank {} df = df"
  by (simp add: blank_def)

lemma columns_blank: "columns (blank B df) = columns df"
  by (induction df) (auto simp: blank_def columns_def)

lemma get_col_blank: "c \<notin> B \<Longrightarrow> get_col (blank B df) c = get_col df c"
  by (induction df) (auto simp: blank_def get_col_def)

lemma set_col_blank: "c \<notin> B \<Longrightarrow> set_col c vs (blank B df) = blank B (set_col c vs df)"
  by (induction df) (auto simp: blank_def set_col_def)

lemma filter_blank:
  "filter (\<lambda>kv. fst kv \<notin> S) (blank B df) = blank (B - S) (filter (\<lambda>kv. fst kv \<notin> S) df)"
  by (induction df) (auto simp: blank_def)

lemma drop_cols_blank:
  "drop_cols cs (blank B df) = map_sum id (blank (B - set cs)) (drop_cols cs df)"
  by (simp add: drop_cols_def columns_blank filter_blank)

lemma blank_append: "blank B (df @ other) = blank B df @ blank B other"
  by (simp add: blank_def)

lemma blank_untouched: "B \<inter> set (columns df) = {} \<Longrightarrow> blank B df = df"
  by (induction df) (auto simp: blank_def columns_def)

lemma join_blank:
  "B \<inter> set (columns other) = {} \<Longrightarrow>
     join (blank B df) other = map_sum id (blank B) (join df other)"
  by (simp add: join_def columns_blank blank_append blank_untouched)

lemma bind_map_sum: "bind (map_sum id g m) f = bind m (\<lambda>x. f (g x))"
  by (cases m) (simp_all add: bind_def)

lemma map_sum_bind: "map_sum id g (bind m f) = bind m (\<lambda>x. map_sum id g (f x))"
  by (cases m) (simp_all add: bind_def)

lemma cell15_blank:
  assumes "B \<inter> {''month'', ''sale_date'', ''sale_year'', ''sale_month''} = {}"
  shows "cell15 (blank B df) = map_sum id (blank B) (cell15 df)"
proof -
  from assms have n: "''month'' \<notin> B" "''sale_date'' \<notin> B" "''sale_year'' \<notin> B"
    "''sale_month'' \<notin> B" by auto
  have d: "B - set [''sale_date'', ''month''] = B" using n by auto
  show ?thesis
    by (simp add: cell15_def get_col_blank set_col_blank drop_cols_blank map_sum_bind n d
        del: set_simps)
qed

lemma cell17_blank:
  assumes "B \<inter> {''remaining_lease'', ''years_remaining'', ''months_remaining''} = {}"
  shows "cell17 (blank B df) = map_sum id (blank (B - {''lease_commence_date''})) (cell17 df)"
proof -
  from assms have n: "''remaining_lease'' \<notin> B" "''years_remaining'' \<notin> B"
    "''months_remaining'' \<notin> B" by auto
  have d: "B - set [''remaining_lease'', ''lease_commence_date''] = B - {''lease_commence_date''}"
    using n by auto
  show ?thesis
    by (simp add: cell17_def get_col_blank set_col_blank drop_cols_blank map_sum_bind n d
        del: set_simps)
qed

lemma cell19_blank:
  assumes "B \<inter> {''storey_range'', ''storey''} = {}"
  shows "cell19 (blank B df) = map_sum id (blank B) (cell19 df)"
proof -
  from assms have n: "''storey_range'' \<notin> B" "''storey'' \<notin> B" by auto
  show ?thesis
    by (simp add: cell19_def get_col_blank set_col_blank map_sum_bind n)
qed

lemma mapM_same: "(\<And>x. x \<in> set xs \<Longrightarrow> f x = g x) \<Longrightarrow> mapM f xs = mapM g xs"
  by (induction xs) (simp_all split: sum.splits)

lemma features_blank:
  assumes "B \<inter> set ohe_features = {}"
  shows "mapM (get_col (blank B df)) ohe_features = mapM (get_col df) ohe_features"
  using assms by (intro mapM_same get_col_blank) auto

lemma ohe_fit_blank: "B \<inter> set ohe_features = {} \<Longrightarrow> ohe_fit (blank B df) = ohe_fit df"
  by (simp add: ohe_fit_def features_blank)

lemma ohe_transform_blank:
  "B \<inter> set ohe_features = {} \<Longrightarrow> ohe_transform cats (blank B df) = ohe_transform cats df"
  by (simp add: ohe_transform_def features_blank)

lemma names_not_blanked:
  assumes "\<forall>b \<in> B. \<forall>r. b \<noteq> CHR ''x'' # r"
  shows "B \<inter> set (columns (zip (get_feature_names cats) enc)) = {}"
  using assms feature_names_x columns_zip_subset by fastforce

lemma cell21_blank:
  assumes "B \<inter> set ohe_features = {}" and "\<forall>b \<in> B. \<forall>r. b \<noteq> CHR ''x'' # r"
  shows "cell21 (blank B df) = map_sum id (map_prod id (blank B)) (cell21 df)"
  by (simp add: cell21_def ohe_fit_blank ohe_transform_blank assms join_blank names_not_blanked
      map_sum_bind bind_map_sum)

lemma cell37_blank:
  "cell37 (blank B df)
     = map_sum id (blank (B - {''town'', ''flat_type'', ''flat_model'', ''storey_range'',
                                 ''block'', ''street_name''})) (cell37 df)"
  by (simp add: cell37_def drop_cols_blank)

lemma unused_facts:
  "unused_columns \<inter> {''month'', ''sale_date'', ''sale_year'', ''sale_month''} = {}"
  "unused_columns \<inter> {''remaining_lease'', ''years_remaining'', ''months_remaining''} = {}"
  "unused_columns - {''lease_commence_date''} = {''block'', ''street_name''}"
  "{''block'', ''street_name''} \<inter> {''storey_range'', ''storey''} = {}"
  "{''block'', ''street_name''} \<inter> set ohe_features = {}"
  "\<forall>b \<in> {''block'', ''street_name''}. \<forall>r. b \<noteq> CHR ''x'' # r"
  "{''block'', ''street_name''} - {''town'', ''flat_type'', ''flat_model'', ''storey_range'',
                                 ''block'', ''street_name''} = {}"
  by (auto simp: unused_columns_def ohe_features_def)

lemma train_blank: "train (blank unused_columns df) = train df"
  by (simp add: train_def cell15_blank cell17_blank cell19_blank cell21_blank cell37_blank
      unused_facts bind_map_sum blank_empty)

lemma cell43_blank:
  assumes "B \<inter> {''month'', ''sale_year'', ''sale_month'', ''storey_range'', ''storey''} = {}"
  shows "cell43 (blank B m) = map_sum id (blank B) (cell43 m)"
proof -
  from assms have n: "''month'' \<notin> B" "''sale_year'' \<notin> B" "''sale_month'' \<notin> B"
    "''storey_range'' \<notin> B" "''storey'' \<notin> B" by auto
  have d: "B - set [''month''] = B" using n by auto
  show ?thesis
    by (simp add: cell43_def get_col_blank set_col_blank drop_cols_blank map_sum_bind
        bind_map_sum n d del: set_simps)
qed

lemma cell44_blank:
  assumes "B \<inter> set ohe_features = {}" and "\<forall>b \<in> B. \<forall>r. b \<noteq> CHR ''x'' # r"
    and "B \<inter> {''remaining_lease'', ''years_remaining'', ''months_remaining''} = {}"
  shows "cell44 cats (blank B m) = map_sum id (blank B) (cell44 cats m)"
proof -
  from assms(3) have n: "''remaining_lease'' \<notin> B" "''years_remaining'' \<notin> B"
    "''months_remaining'' \<notin> B" by auto
  show ?thesis
    by (simp add: cell44_def ohe_transform_blank assms(1,2) join_blank names_not_blanked
        get_col_blank set_col_blank map_sum_bind bind_map_sum n)
qed

lemma cell45_blank:
  "cell45 (blank B m)
     = map_sum id (blank (B - {''remaining_lease'', ''lease_commence_date'', ''town'',
          ''flat_type'', ''flat_model'', ''storey_range'', ''block'', ''street_name''}))
         (cell45 m)"
  by (simp add: cell45_def drop_cols_blank)

lemma unused_facts_predict:
  "unused_columns \<inter> {''month'', ''sale_year'', ''sale_month'', ''storey_range'', ''storey''} = {}"
  "unused_columns \<inter> set ohe_features = {}"
  "\<forall>b \<in> unused_columns. \<forall>r. b \<noteq> CHR ''x'' # r"
  "unused_columns - {''remaining_lease'', ''lease_commence_date'', ''town'',
          ''flat_type'', ''flat_model'', ''storey_range'', ''block'', ''street_name''} = {}"
  by (auto simp: unused_columns_def ohe_features_def)

lemma map_sum_blank_empty: "map_sum id (blank {}) r = r"
  by (cases r) (simp_all add: blank_empty)

lemma assemble_blank: "assemble st (blank unused_columns m) = assemble st m"
  by (simp add: assemble_def cell43_blank cell44_blank cell45_blank unused_facts
      unused_facts_predict bind_map_sum map_sum_blank_empty)

lemma in_columns_iff: "c \<in> set (columns df) \<longleftrightarrow> (\<exists>vs. get_col df c = Inr vs)"
  using get_col_Inl[of df c] by (cases "get_col df c") auto

lemma apply_str_Inr: "apply_str f c = Inr r \<Longrightarrow> \<exists>s. c = Str s"
  by (cases c) (simp_all add: apply_str_def)

lemma mapM_Inr_all: "mapM f xs = Inr ys \<Longrightarrow> x \<in> set xs \<Longrightarrow> \<exists>r. f x = Inr r"
  by (induction xs arbitrary: ys) (auto split: sum.splits)

lemma isna_not_str: "isna c \<Longrightarrow> c \<noteq> Str s"
  by (cases c) (simp_all add: isna_def)

lemma train_lease_strings:
  assumes "train df = Inr st"
  shows "\<exists>ls. get_col df ''remaining_lease'' = Inr ls \<and> (\<forall>c \<in> set ls. \<exists>s. c = Str s)"
proof -
  from assms obtain df1 df2 where s: "cell15 df = Inr df1" "cell17 df1 = Inr df2"
    by (rule train_stages)
  from s(2) obtain ls ys where g: "get_col df1 ''remaining_lease'' = Inr ls"
    and m: "mapM (apply_str years_remaining) ls = Inr ys"
    by (auto simp: cell17_def bind_Inr_iff)
  have "get_col df1 ''remaining_lease'' = get_col df ''remaining_lease''"
    using s(1) by (intro cell15_keeps) auto
  with g have "get_col df ''remaining_lease'' = Inr ls" by simp
  moreover have "\<forall>c \<in> set ls. \<exists>s. c = Str s"
    using mapM_Inr_all[OF m] apply_str_Inr by blast
  ultimately show ?thesis by blast
qed

lemma assemble_strings:
  assumes "assemble st m = Inr m'"
  shows "\<exists>ms ls. get_col m ''month'' = Inr ms \<and> (\<forall>c \<in> set ms. \<exists>s. c = Str s)
           \<and> get_col m ''remaining_lease'' = Inr ls \<and> (\<forall>c \<in> set ls. \<exists>s. c = Str s)"
proof -
  from assms obtain m1 m2 where s: "cell43 m = Inr m1" "cell44 (ohe_cats st) m1 = Inr m2"
    by (auto simp: assemble_def bind_Inr_iff)
  from s(1) obtain ms ys where g: "get_col m ''month'' = Inr ms"
    and y: "mapM (apply_str sale_year_of) ms = Inr ys"
    by (auto simp: cell43_def bind_Inr_iff)
  from s(2) obtain enc mj ls ys' where j: "join m1 (zip (get_feature_names (ohe_cats st)) enc) = Inr mj"
    and gl: "get_col mj ''remaining_lease'' = Inr ls"
    and l: "mapM (apply_str years_remaining) ls = Inr ys'"
    by (auto simp: cell44_def bind_Inr_iff)
  have "''remaining_lease'' \<notin> set (columns (zip (get_feature_names (ohe_cats st)) enc))"
    using feature_names_x columns_zip_subset by fastforce
  with j gl have "get_col m1 ''remaining_lease'' = Inr ls"
    by (auto simp: join_Inr get_col_append)
  moreover have "get_col m1 ''remaining_lease'' = get_col m ''remaining_lease''"
    using s(1) by (intro cell43_keeps) auto
  ultimately have "get_col m ''remaining_lease'' = Inr ls" by simp
  moreover have "\<forall>c \<in> set ms. \<exists>s. c = Str s" using mapM_Inr_all[OF y] apply_str_Inr by blast
  moreover have "\<forall>c \<in> set ls. \<exists>s. c = Str s" using mapM_Inr_all[OF l] apply_str_Inr by blast
  ultimately show ?thesis using g by blast
qed

lemma train_requires:
  assumes "train df = Inr st"
  shows "set required_columns \<subseteq> set (columns df)"
proof -
  from assms obtain df1 df2 df3 df4 where s:
    "cell15 df = Inr df1" "cell17 df1 = Inr df2" "cell19 df2 = Inr df3"
    "cell21 df3 = Inr (ohe_cats st, df4)" "cell37 df4 = Inr (df_final st)"
    "cell38 (df_final st) = Inr (features st, labels st)"
    by (rule train_stages)
  have month: "''month'' \<in> set (columns df)"
    using s(1) by (auto simp: cell15_def bind_Inr_iff in_columns_iff)
  have lease: "''remaining_lease'' \<in> set (columns df)"
    using train_lease_strings[OF assms] by (auto simp: in_columns_iff)
  have "''lease_commence_date'' \<in> set (columns df1)"
    using s(2) by (auto simp: cell17_def bind_Inr_iff drop_cols_Inr columns_set_col
        split: if_splits)
  moreover have "get_col df1 ''lease_commence_date'' = get_col df ''lease_commence_date''"
    using s(1) by (intro cell15_keeps) auto
  ultimately have lcd: "''lease_commence_date'' \<in> set (columns df)"
    by (simp add: in_columns_iff)
  have storey: "''storey_range'' \<in> set (columns df)"
    using train_storey[OF assms] by (auto simp: in_columns_iff)
  have ohe: "''town'' \<in> set (columns df)" "''flat_type'' \<in> set (columns df)"
    "''flat_model'' \<in> set (columns df)"
    using train_vocabulary[OF assms] by (auto simp: in_columns_iff)
  have unused: "c \<in> set (columns df)"
    if "c = ''block'' \<or> c = ''street_name''" for c
  proof -
    have "c \<in> set (columns df4)" using s(5) that by (auto simp: cell37_def drop_cols_Inr)
    moreover have "get_col df1 c = get_col df c" using s(1) that by (intro cell15_keeps) auto
    moreover have "get_col df2 c = get_col df1 c" using s(2) that by (intro cell17_keeps) auto
    moreover have "get_col df3 c = get_col df2 c" using s(3) that by (intro cell19_keeps) auto
    moreover have "get_col df4 c = get_col df3 c" using s(4) that by (intro cell21_keeps) auto
    ultimately show ?thesis by (simp add: in_columns_iff)
  qed
  have "''resale_price'' \<in> set (columns (df_final st))"
    using s(6) by (auto simp: cell38_def bind_Inr_iff in_columns_iff)
  then have price: "''resale_price'' \<in> set (columns df)"
    using train_keeps[OF assms, of "''resale_price''"] by (simp add: in_columns_iff)
  show ?thesis
    using month lease lcd storey ohe unused price by (simp add: required_columns_def)
qed

section \<open>The ordinal encoder\<close>

text \<open>
  Claim C4. The ordinal encoder maps the 17 storey bands, \<open>01 TO 03\<close> to \<open>49 TO 51\<close> in the
  order the notebook lists them, to their positions 0 to 16: \<^verbatim>\<open>transform\<close> and
  \<^verbatim>\<open>fit_transform\<close> turn a column of bands into the column of their positions, the 17 bands
  are distinct, and a band that sorts lower has the lower position. On a column of strings
  with a string that is not one of the 17 bands, \<^verbatim>\<open>transform\<close> and \<^verbatim>\<open>fit_transform\<close> raise
  the library's unknown-category error, a \<^verbatim>\<open>ValueError\<close>.
\<close>

theorem ordinal_encoder_bijection:
  "length storey_cat = 17 \<and> distinct storey_cat
   \<and> storey_cat ! 0 = ''01 TO 03'' \<and> storey_cat ! 16 = ''49 TO 51''
   \<and> (\<forall>ps. ps \<noteq> [] \<and> (\<forall>i \<in> set ps. i < 17) \<longrightarrow>
          oe_transform (map (\<lambda>i. Str (storey_cat ! i)) ps)
            = Inr (map (\<lambda>i. IntC (int i)) ps :: 'f cell list)
        \<and> oe_fit_transform (map (\<lambda>i. Str (storey_cat ! i)) ps)
            = Inr (map (\<lambda>i. IntC (int i)) ps :: 'f cell list))
   \<and> (\<forall>i < 17. \<forall>j < 17. i < j \<longrightarrow> storey_cat ! i < storey_cat ! j)
   \<and> (\<forall>ss. (\<exists>s \<in> set ss. s \<notin> set storey_cat) \<longrightarrow>
          oe_transform (map Str ss :: 'f cell list) = Inl ValueError
        \<and> oe_fit_transform (map Str ss :: 'f cell list) = Inl ValueError)"
proof (intro conjI allI impI)
  show "length storey_cat = 17" by (rule length_storey_cat)
  show "distinct storey_cat" by (rule distinct_storey_cat)
  show "storey_cat ! 0 = ''01 TO 03''" by (simp add: storey_cat_def)
  show "storey_cat ! 16 = ''49 TO 51''" by (simp add: storey_cat_def)
next
  fix ps :: "nat list" assume a: "ps \<noteq> [] \<and> (\<forall>i \<in> set ps. i < 17)"
  then show "oe_transform (map (\<lambda>i. Str (storey_cat ! i)) ps)
            = Inr (map (\<lambda>i. IntC (int i)) ps :: 'f cell list)"
    using oe_transform_ranks(1)[of ps] by blast
  from a show "oe_fit_transform (map (\<lambda>i. Str (storey_cat ! i)) ps)
            = Inr (map (\<lambda>i. IntC (int i)) ps :: 'f cell list)"
    using oe_transform_ranks(2)[of ps] by blast
next
  fix i j :: nat assume "i < 17" "j < 17" "i < j"
  then show "storey_cat ! i < storey_cat ! j"
    using sorted_storey_cat by (simp add: sorted_wrt_iff_nth_less length_storey_cat)
next
  fix ss assume "\<exists>s \<in> set ss. s \<notin> set storey_cat"
  then obtain s where s: "s \<in> set ss" "s \<notin> set storey_cat" by blast
  then show "oe_transform (map Str ss :: 'f cell list) = Inl ValueError"
    using oe_strings_unknown(1)[of s ss] by blast
  from s show "oe_fit_transform (map Str ss :: 'f cell list) = Inl ValueError"
    using oe_strings_unknown(2)[of s ss] by blast
qed

theorem ordinal_encoder_bijection_witness:
  "oe_transform [Str ''10 TO 12'', Str ''01 TO 03'', Str ''49 TO 51'' :: unit cell]
     = Inr [IntC 3, IntC 0, IntC 16]
   \<and> oe_fit_transform [Str ''10 TO 12'', Str ''01 TO 03'', Str ''49 TO 51'' :: unit cell]
     = Inr [IntC 3, IntC 0, IntC 16]
   \<and> ''10 TO 12'' < ''13 TO 15''
   \<and> oe_transform [Str ''01 TO 03'', Str ''52 TO 54'' :: unit cell] = Inl ValueError
   \<and> oe_fit_transform [Str ''01 TO 03'', Str ''52 TO 54'' :: unit cell] = Inl ValueError"
proof -
  note t = ordinal_encoder_bijection[where 'f = unit]
  have p: "[3, 0, 16 :: nat] \<noteq> [] \<and> (\<forall>i \<in> set [3, 0, 16 :: nat]. i < 17)" by simp
  have l: "map (\<lambda>i. Str (storey_cat ! i) :: unit cell) [3, 0, 16]
      = [Str ''10 TO 12'', Str ''01 TO 03'', Str ''49 TO 51'']"
    by (simp add: storey_cat_def)
  have r: "map (\<lambda>i. IntC (int i) :: unit cell) [3, 0, 16] = [IntC 3, IntC 0, IntC 16]" by simp
  from t p have "oe_transform (map (\<lambda>i. Str (storey_cat ! i)) [3, 0, 16])
       = Inr (map (\<lambda>i. IntC (int i)) [3, 0, 16] :: unit cell list)
     \<and> oe_fit_transform (map (\<lambda>i. Str (storey_cat ! i)) [3, 0, 16])
       = Inr (map (\<lambda>i. IntC (int i)) [3, 0, 16] :: unit cell list)" by blast
  then have a: "oe_transform [Str ''10 TO 12'', Str ''01 TO 03'', Str ''49 TO 51'' :: unit cell]
       = Inr [IntC 3, IntC 0, IntC 16]
     \<and> oe_fit_transform [Str ''10 TO 12'', Str ''01 TO 03'', Str ''49 TO 51'' :: unit cell]
       = Inr [IntC 3, IntC 0, IntC 16]" unfolding l r .
  have "storey_cat ! 3 < storey_cat ! 4" using t by simp
  then have b: "''10 TO 12'' < ''13 TO 15''" by (simp add: storey_cat_def)
  have n: "\<exists>s \<in> set [''01 TO 03'', ''52 TO 54'']. s \<notin> set storey_cat"
    by (simp add: storey_cat_def)
  from t n have "oe_transform (map Str [''01 TO 03'', ''52 TO 54''] :: unit cell list) = Inl ValueError
     \<and> oe_fit_transform (map Str [''01 TO 03'', ''52 TO 54''] :: unit cell list) = Inl ValueError"
    by blast
  then have c: "oe_transform [Str ''01 TO 03'', Str ''52 TO 54'' :: unit cell] = Inl ValueError
     \<and> oe_fit_transform [Str ''01 TO 03'', Str ''52 TO 54'' :: unit cell] = Inl ValueError"
    by simp
  from a b c show ?thesis by blast
qed

section \<open>Sale month\<close>










section \<open>Remaining lease\<close>

text \<open>
  Claim C2. On \<^verbatim>\<open><N> years <M> months\<close> the two lambdas of cells 17 and 44 give the
  years \<open>N\<close> and the months \<open>M\<close>. On \<^verbatim>\<open><N> years\<close> the second lambda takes the piece
  before the last of the split on single spaces, which is \<open>N\<close> again: the months come out as
  \<open>N\<close>, where the claim has 0.
\<close>

theorem lease_lambdas_two_forms:
  assumes "all_digits n" and "all_digits m"
  shows "lease_fields (n @ '' years '' @ m @ '' months'') = Inr (digits_val n, digits_val m)
       \<and> lease_fields (n @ '' years'') = Inr (digits_val n, digits_val n)"
  using lease_four_tokens[OF assms] lease_two_tokens[OF assms(1)] by simp

theorem lease_lambdas_two_forms_witness:
  "all_digits ''99'' \<and> all_digits ''04''
   \<and> lease_fields ''99 years 04 months'' = Inr (99, 4)
   \<and> lease_fields ''99 years'' = Inr (99, 99)"
proof -
  have a: "all_digits ''99''" and b: "all_digits ''04''"
    by (simp_all add: all_digits_def is_digit_def)
  have d: "digits_val ''99'' = 99" "digits_val ''04'' = 4"
    by (simp_all add: digits_val_def digit_val_def)
  show ?thesis using a b lease_lambdas_two_forms[OF a b] unfolding d by simp
qed




section \<open>What training leaves alone\<close>

text \<open>
  Claim C10. When training succeeds, the \<^verbatim>\<open>floor_area_sqm\<close> column of the feature matrix
  is the \<^verbatim>\<open>floor_area_sqm\<close> column of the corpus, value for value and row for row, and the
  labels handed to the split are the \<^verbatim>\<open>resale_price\<close> column of the corpus in its row
  order; the feature matrix has no \<^verbatim>\<open>resale_price\<close> column.
\<close>

theorem floor_area_and_labels_untouched:
  assumes "train df = Inr st"
  shows "get_col (features st) ''floor_area_sqm'' = get_col df ''floor_area_sqm''
       \<and> get_col df ''resale_price'' = Inr (labels st)
       \<and> get_col (df_final st) ''floor_area_sqm'' = get_col df ''floor_area_sqm''
       \<and> ''resale_price'' \<notin> set (columns (features st))"
proof -
  from assms obtain df1 df2 df3 df4 where s:
    "cell15 df = Inr df1" "cell17 df1 = Inr df2" "cell19 df2 = Inr df3"
    "cell21 df3 = Inr (ohe_cats st, df4)" "cell37 df4 = Inr (df_final st)"
    "cell38 (df_final st) = Inr (features st, labels st)"
    by (rule train_stages)
  have keep: "get_col (df_final st) c = get_col df c"
    if "c = ''floor_area_sqm'' \<or> c = ''resale_price''" for c
    using train_keeps[OF assms that] .
  from s(6) have d: "drop_cols [''resale_price''] (df_final st) = Inr (features st)"
    and l: "get_col (df_final st) ''resale_price'' = Inr (labels st)"
    by (auto simp: cell38_def bind_Inr_iff)
  have "get_col (features st) ''floor_area_sqm'' = get_col (df_final st) ''floor_area_sqm''"
    using get_col_drop[OF d, of "''floor_area_sqm''"] by simp
  moreover have "''resale_price'' \<notin> set (columns (features st))"
    using columns_drop[OF d] by simp
  ultimately show ?thesis using keep l by simp
qed


theorem floor_area_and_labels_untouched_witness:
  "train example_corpus = Inr example_fitted
   \<and> get_col (features example_fitted) ''floor_area_sqm'' = Inr [FltC 92, FltC 67, FltC 90]
   \<and> labels example_fitted = [FltC 232000, FltC 250000, FltC 400000]"
proof -
  have a: "get_col example_corpus ''floor_area_sqm'' = Inr [FltC 92, FltC 67, FltC 90]"
    by code_simp
  have b: "get_col example_corpus ''resale_price'' = Inr [FltC 232000, FltC 250000, FltC 400000]"
    by code_simp
  from floor_area_and_labels_untouched[OF train_example] a b train_example
  show ?thesis by simp
qed

section \<open>One-hot rows\<close>

text \<open>
  Claim C6. Let the encoder be fitted on a frame and let it transform a frame without
  raising, which means that every value of the three columns is in the fitted vocabulary.
  Then the output is, for \<^verbatim>\<open>town\<close>, \<^verbatim>\<open>flat_type\<close> and \<^verbatim>\<open>flat_model\<close> in turn, one
  indicator column for each value of the vocabulary, and in every row exactly one of the
  \<open>k\<close> indicators of a column is 1 and the other \<open>k - 1\<close> are 0.
\<close>

theorem one_hot_exactly_one:
  assumes "ohe_fit df = Inr cats" and "ohe_transform cats m = Inr enc"
  shows "\<exists>t1 t2 t3 c1 c2 c3.
           cats = [t1, t2, t3]
         \<and> get_col m ''town'' = Inr c1 \<and> get_col m ''flat_type'' = Inr c2
         \<and> get_col m ''flat_model'' = Inr c3
         \<and> enc = indicators t1 c1 @ indicators t2 c2 @ indicators t3 c3
         \<and> (\<forall>p \<in> {(t1, c1), (t2, c2), (t3, c3)}. \<forall>r < length (snd p).
               length (indicator_row (indicators (fst p) (snd p)) r) = length (fst p)
             \<and> one_hot_row (indicator_row (indicators (fst p) (snd p)) r))"
proof -
  from ohe_fit_Inr[OF assms(1)] obtain t1 t2 t3 where t: "cats = [t1, t2, t3]" "distinct t1"
    "distinct t2" "distinct t3" by blast
  from assms(2) t(1) obtain c1 c2 c3 where c: "get_col m ''town'' = Inr c1"
    "get_col m ''flat_type'' = Inr c2" "get_col m ''flat_model'' = Inr c3"
    "set c1 \<subseteq> set t1" "set c2 \<subseteq> set t2" "set c3 \<subseteq> set t3"
    "enc = indicators t1 c1 @ indicators t2 c2 @ indicators t3 c3"
    using ohe_transform_Inr[of t1 t2 t3 m enc] by blast
  have "\<forall>r < length cc. length (indicator_row (indicators tt cc) r) = length tt
             \<and> one_hot_row (indicator_row (indicators tt cc) r)"
    if "distinct tt" "set cc \<subseteq> set tt" for tt cc :: "'a cell list"
    using that one_hot_indicators[of tt _ cc] by (meson nth_mem subsetD)
  then have "\<forall>p \<in> {(t1, c1), (t2, c2), (t3, c3)}. \<forall>r < length (snd p).
               length (indicator_row (indicators (fst p) (snd p)) r) = length (fst p)
             \<and> one_hot_row (indicator_row (indicators (fst p) (snd p)) r)"
    using t(2-4) c(4-6) by simp
  with t(1) c(1-3,7) show ?thesis by blast
qed

theorem one_hot_exactly_one_witness:
  "ohe_fit example_corpus = Inr (ohe_cats example_fitted)
   \<and> ohe_transform (ohe_cats example_fitted) example_flat
       = Inr [[IntC 0], [IntC 1], [IntC 0], [IntC 1], [IntC 1], [IntC 0]]
   \<and> one_hot_row (indicator_row (indicators [Str ''BEDOK'', Str ''YISHUN''] [Str ''YISHUN'']) 0
        :: int cell list)"
proof -
  have f: "ohe_fit example_corpus = Inr (ohe_cats example_fitted)"
    by code_simp
  have t: "ohe_transform (ohe_cats example_fitted) example_flat
       = Inr [[IntC 0], [IntC 1], [IntC 0], [IntC 1], [IntC 1], [IntC 0]]"
    by code_simp
  have c: "ohe_cats example_fitted
      = [[Str ''BEDOK'', Str ''YISHUN''], [Str ''3 ROOM'', Str ''4 ROOM''],
         [Str ''Improved'', Str ''New Generation'']]"
    by (simp add: example_fitted_def)
  have g: "get_col example_flat ''town'' = Inr [Str ''YISHUN'']"
    by code_simp
  from one_hot_exactly_one[OF f t] obtain t1 t2 t3 c1 c2 c3 where
    o: "ohe_cats example_fitted = [t1, t2, t3]" "get_col example_flat ''town'' = Inr c1"
    "\<forall>p \<in> {(t1, c1), (t2, c2), (t3, c3)}. \<forall>r < length (snd p).
         length (indicator_row (indicators (fst p) (snd p)) r) = length (fst p)
       \<and> one_hot_row (indicator_row (indicators (fst p) (snd p)) r)"
    by blast
  from o(1) c have t1: "t1 = [Str ''BEDOK'', Str ''YISHUN'']" by simp
  from o(2) g have c1: "c1 = [Str ''YISHUN'']" by simp
  from o(3) have "one_hot_row (indicator_row (indicators t1 c1) 0)"
    unfolding c1 by simp
  with f t show ?thesis unfolding t1 c1 by simp
qed

section \<open>The schema check before prediction\<close>

text \<open>
  Claim C1. Let training have succeeded on a corpus with distinct column labels, and let
  cells 43 to 45 have assembled the row of a flat whose file has distinct labels. If the
  labels of the assembled row are not exactly the labels of the training feature matrix
  (the training columns without \<^verbatim>\<open>resale_price\<close>), then the assertion of cell 46 or the
  selection of cell 47 raises (\<^verbatim>\<open>AssertionError\<close>, \<^verbatim>\<open>KeyError\<close>) and \<^verbatim>\<open>lr.predict\<close> is
  never called, whatever the model. If both pass, the frame handed to \<^verbatim>\<open>lr.predict\<close> has
  the labels of the training feature matrix in the same order, each column with the values
  of the assembled row; and a predicted price is only ever the first prediction for such a
  frame.
\<close>

theorem schema_enforced:
  assumes "train df = Inr st" and "distinct (columns df)" and "no_nan_clash df"
    and "distinct (columns myflat)" and "assemble st myflat = Inr m"
  shows "(set (columns m) \<noteq> set (columns (features st)) \<longrightarrow>
            (aligned st m = Inl AssertionError \<or> aligned st m = Inl KeyError)
          \<and> (\<forall>predict :: 'f frame \<Rightarrow> error + 'p list.
                predict_price predict st myflat = Inl AssertionError
              \<or> predict_price predict st myflat = Inl KeyError))
       \<and> (\<forall>m'. aligned st m = Inr m' \<longrightarrow>
            columns m' = columns (features st)
          \<and> (\<forall>c \<in> set (columns m'). get_col m' c = get_col m c))
       \<and> (\<forall>(predict :: 'f frame \<Rightarrow> error + 'p list) p.
            predict_price predict st myflat = Inr p \<longrightarrow>
            (\<exists>m' ps. aligned st m = Inr m' \<and> columns m' = columns (features st)
                    \<and> predict m' = Inr ps \<and> py_index ps 0 = Inr p))"
proof (intro conjI allI impI)
  assume ne: "set (columns m) \<noteq> set (columns (features st))"
  from assms(1) have "cell38 (df_final st) = Inr (features st, labels st)"
    by (rule train_stages)
  then show a: "aligned st m = Inl AssertionError \<or> aligned st m = Inl KeyError"
    using train_distinct[OF assms(1-3)] assemble_distinct[OF assms(5,4)] ne
    by (intro aligned_mismatch) auto
  fix predict :: "'f frame \<Rightarrow> error + 'p list"
  from a show "predict_price predict st myflat = Inl AssertionError
              \<or> predict_price predict st myflat = Inl KeyError"
    by (auto simp: predict_price_def assms(5) bind_def)
next
  fix m' assume "aligned st m = Inr m'"
  from aligned_Inr(1,2)[OF this]
  show "columns m' = columns (features st)"
    and "\<forall>c \<in> set (columns m'). get_col m' c = get_col m c" by simp_all
next
  fix predict :: "'f frame \<Rightarrow> error + 'p list" and p
  assume "predict_price predict st myflat = Inr p"
  then obtain m' ps where "aligned st m = Inr m'" "predict m' = Inr ps" "py_index ps 0 = Inr p"
    by (auto simp: predict_price_def assms(5) bind_Inr_iff)
  then show "\<exists>m' ps. aligned st m = Inr m' \<and> columns m' = columns (features st)
                    \<and> predict m' = Inr ps \<and> py_index ps 0 = Inr p"
    using aligned_Inr(1) by blast
qed

theorem schema_enforced_witness:
  "train example_corpus = Inr example_fitted
   \<and> assemble example_fitted example_flat = Inr example_assembled
   \<and> aligned example_fitted example_assembled = Inr example_row
   \<and> columns example_row = columns (features example_fitted)
   \<and> assemble example_fitted example_flat_extra = Inr example_assembled_extra
   \<and> (aligned example_fitted example_assembled_extra = Inl AssertionError
        \<or> aligned example_fitted example_assembled_extra = Inl KeyError)"
proof -
  have a: "aligned example_fitted example_assembled = Inr example_row"
    by code_simp
  have ne: "set (columns example_assembled_extra) \<noteq> set (columns (features example_fitted))"
    by code_simp
  note ok = schema_enforced[where ?'p = int, OF train_example example_inputs(1,2,3) assemble_example]
  note bad = schema_enforced[where ?'p = int, OF train_example example_inputs(1,2,4)
      assemble_example_extra]
  from ok a have "columns example_row = columns (features example_fitted)" by blast
  moreover from bad ne
  have "aligned example_fitted example_assembled_extra = Inl AssertionError
        \<or> aligned example_fitted example_assembled_extra = Inl KeyError" by blast
  ultimately show ?thesis
    using train_example assemble_example assemble_example_extra a by blast
qed

section \<open>Unknown categories\<close>




section \<open>Nulls\<close>

text \<open>
  Claim C9 speaks of a null check before parsing. The corpus below has a sale without \<^verbatim>\<open>block\<close>, and so has the flat: \<^verbatim>\<open>df.isna().sum()\<close>
  counts one null in that column, training succeeds all the same, and the flat's row
  reaches \<^verbatim>\<open>lr.predict\<close>.
\<close>

theorem null_block_accepted_counterexample:
  "map_of (isna_sum example_corpus) ''block'' = Some 1
   \<and> train example_corpus = Inr example_fitted
   \<and> map_of (isna_sum example_flat) ''block'' = Some 1
   \<and> assemble example_fitted example_flat = Inr example_assembled
   \<and> aligned example_fitted example_assembled = Inr example_row"
proof -
  have "map_of (isna_sum example_corpus) ''block'' = Some 1" by code_simp
  moreover have "map_of (isna_sum example_flat) ''block'' = Some 1" by code_simp
  moreover have "aligned example_fitted example_assembled = Inr example_row" by code_simp
  ultimately show ?thesis using train_example assemble_example by simp
qed

text \<open>
  Claim C9, as the code has it. The notebook has no null check: cell 25 displays the null
  counts after parsing and encoding and raises nothing. What training and the assembled
  prediction row give does not depend on what \<^verbatim>\<open>block\<close>, \<^verbatim>\<open>street_name\<close> and
  \<^verbatim>\<open>lease_commence_date\<close> hold, so a null there is never noticed. A null
  \<^verbatim>\<open>remaining_lease\<close> makes training raise, and a null \<^verbatim>\<open>remaining_lease\<close> or \<^verbatim>\<open>month\<close>
  makes the prediction raise, since the lambdas call \<^verbatim>\<open>x.split\<close>; training raises as
  well when one of the ten columns its cells name is absent.
\<close>

theorem nulls_not_validated:
  "(blank unused_columns df2 = blank unused_columns df \<longrightarrow> train df2 = train df)
   \<and> (blank unused_columns m2 = blank unused_columns m \<longrightarrow> assemble st m2 = assemble st m)
   \<and> (\<forall>ls c. get_col df ''remaining_lease'' = Inr ls \<and> c \<in> set ls \<and> isna c \<longrightarrow>
         (\<exists>e. train df = Inl e))
   \<and> (\<forall>ls c. (get_col m ''remaining_lease'' = Inr ls \<or> get_col m ''month'' = Inr ls)
           \<and> c \<in> set ls \<and> isna c \<longrightarrow> (\<exists>e. assemble st m = Inl e))
   \<and> (\<forall>c. c \<in> set required_columns \<and> c \<notin> set (columns df) \<longrightarrow> (\<exists>e. train df = Inl e))"
proof (intro conjI allI impI)
  assume "blank unused_columns df2 = blank unused_columns df"
  then show "train df2 = train df" using train_blank[of df2] train_blank[of df] by simp
next
  assume "blank unused_columns m2 = blank unused_columns m"
  then show "assemble st m2 = assemble st m"
    using assemble_blank[of st m2] assemble_blank[of st m] by simp
next
  fix ls c assume a: "get_col df ''remaining_lease'' = Inr ls \<and> c \<in> set ls \<and> isna c"
  show "\<exists>e. train df = Inl e"
  proof (cases "train df")
    case (Inr st')
    from train_lease_strings[OF Inr] a have "\<exists>s. c = Str s" by auto
    with a isna_not_str show ?thesis by blast
  qed blast
next
  fix ls c
  assume a: "(get_col m ''remaining_lease'' = Inr ls \<or> get_col m ''month'' = Inr ls)
           \<and> c \<in> set ls \<and> isna c"
  show "\<exists>e. assemble st m = Inl e"
  proof (cases "assemble st m")
    case (Inr m')
    from assemble_strings[OF Inr] a have "\<exists>s. c = Str s" by auto
    with a isna_not_str show ?thesis by blast
  qed blast
next
  fix c assume a: "c \<in> set required_columns \<and> c \<notin> set (columns df)"
  show "\<exists>e. train df = Inl e"
  proof (cases "train df")
    case (Inr st')
    from train_requires[OF Inr] a show ?thesis by blast
  qed blast
qed

theorem nulls_not_validated_witness:
  "train example_corpus_filled = Inr example_fitted
   \<and> assemble example_fitted example_flat_filled = Inr example_assembled
   \<and> (\<exists>e. train example_corpus_null_lease = Inl e)
   \<and> (\<exists>e. assemble example_fitted example_flat_null_month = Inl e)
   \<and> (\<exists>e. train example_corpus_no_block = Inl e)"
proof -
  have b1: "blank unused_columns example_corpus_filled = blank unused_columns example_corpus"
    by code_simp
  have b2: "blank unused_columns example_flat_filled = blank unused_columns example_flat"
    by code_simp
  have l: "get_col example_corpus_null_lease ''remaining_lease''
             = Inr [Str ''61 years 04 months'', NaN, Str ''70 years 11 months'']
           \<and> NaN \<in> set [Str ''61 years 04 months'', NaN, Str ''70 years 11 months'' :: int cell]
           \<and> isna (NaN :: int cell)"
    by code_simp
  have mo: "(get_col example_flat_null_month ''remaining_lease'' = Inr [NaN]
             \<or> get_col example_flat_null_month ''month'' = Inr [NaN])
           \<and> NaN \<in> set [NaN :: int cell] \<and> isna (NaN :: int cell)"
    by code_simp
  have nb: "''block'' \<in> set required_columns
           \<and> ''block'' \<notin> set (columns example_corpus_no_block)"
    by code_simp
  note t = nulls_not_validated[where ?df2.0 = example_corpus_filled and df = example_corpus
      and ?m2.0 = example_flat_filled and m = example_flat and st = example_fitted]
  from t b1 have 1: "train example_corpus_filled = Inr example_fitted"
    by (simp add: train_example)
  from t b2 have 2: "assemble example_fitted example_flat_filled = Inr example_assembled"
    by (simp add: assemble_example)
  note u = nulls_not_validated[where ?df2.0 = example_corpus and df = example_corpus_null_lease
      and ?m2.0 = example_flat and m = example_flat_null_month and st = example_fitted]
  from u l have 3: "\<exists>e. train example_corpus_null_lease = Inl e" by blast
  from u mo have 4: "\<exists>e. assemble example_fitted example_flat_null_month = Inl e" by blast
  note w = nulls_not_validated[where ?df2.0 = example_corpus and df = example_corpus_no_block
      and ?m2.0 = example_flat and m = example_flat and st = example_fitted]
  from w nb have 5: "\<exists>e. train example_corpus_no_block = Inl e" by blast
  from 1 2 3 4 5 show ?thesis by blast
qed


end
